theory Spec2Isabelle
  imports Main "HOL-Library.AList"
begin

section \<open>JavaScript values, objects and errors\<close>

text \<open>
  The runtime handles untyped values (\<open>any\<close>): task arguments, configuration trees and
  the properties published into the global object. A function or a class instance is
  opaque here (\<open>JOpaque\<close>) and carries a label only.
\<close>

datatype jsval =
    JUndefined
  | JNull
  | JBool bool
  | JNum int
  | JStr string
  | JArr "jsval list"
  | JObj "(string \<times> jsval) list"
  | JOpaque string

text \<open>
  An object is the list of its own enumerable properties in creation order, as
  \<open>Object.entries\<close> lists them. \<open>getProp\<close> reads an own property and gives \<open>undefined\<close>
  when the object does not have it; \<open>setProp\<close> defines a property: it keeps the place of
  an existing one and appends a new one.
\<close>

type_synonym jsobj = "(string \<times> jsval) list"

definition getProp :: "jsobj \<Rightarrow> string \<Rightarrow> jsval" where
  "getProp obj key = (case map_of obj key of None \<Rightarrow> JUndefined | Some v \<Rightarrow> v)"

definition setProp :: "string \<Rightarrow> jsval \<Rightarrow> jsobj \<Rightarrow> jsobj" where
  "setProp key v obj = AList.update key v obj"

definition hasOwnProperty :: "jsobj \<Rightarrow> string \<Rightarrow> bool" where
  "hasOwnProperty obj key = (key \<in> set (map fst obj))"

definition Object_keys :: "jsobj \<Rightarrow> string list" where
  "Object_keys obj = map fst obj"

definition Object_values :: "(string \<times> 'a) list \<Rightarrow> 'a list" where
  "Object_values obj = map snd obj"

text \<open>
  Every object here is an ordinary one and inherits from \<open>Object.prototype\<close>, whose
  members are opaque values. \<open>obj[key]\<close> reads the own property when there is one and the
  inherited member otherwise (\<open>readMember\<close>). \<open>obj[key] = v\<close> defines or overwrites the own
  property (\<open>assign\<close>), except under the name \<open>__proto__\<close> on an object with no own
  property of that name: the assignment then goes to the accessor of \<open>Object.prototype\<close>
  and creates no property (that an object value replaces the prototype is not modelled).
  Under a literal name that \<open>Object.prototype\<close> lacks (\<open>networks\<close>, \<open>paths\<close>, \<open>runSuper\<close>)
  a read is \<open>getProp\<close> and a write is \<open>setProp\<close>.
\<close>

definition Object_prototype :: jsobj where
  "Object_prototype =
     [(''constructor'', JOpaque ''Object''),
      (''__proto__'', JOpaque ''Object.prototype''),
      (''__defineGetter__'', JOpaque ''__defineGetter__''),
      (''__defineSetter__'', JOpaque ''__defineSetter__''),
      (''__lookupGetter__'', JOpaque ''__lookupGetter__''),
      (''__lookupSetter__'', JOpaque ''__lookupSetter__''),
      (''hasOwnProperty'', JOpaque ''hasOwnProperty''),
      (''isPrototypeOf'', JOpaque ''isPrototypeOf''),
      (''propertyIsEnumerable'', JOpaque ''propertyIsEnumerable''),
      (''toLocaleString'', JOpaque ''toLocaleString''),
      (''toString'', JOpaque ''toString''),
      (''valueOf'', JOpaque ''valueOf'')]"

definition readMember :: "jsobj \<Rightarrow> string \<Rightarrow> jsval" where
  "readMember obj key =
     (case map_of obj key of
        Some v \<Rightarrow> v
      | None \<Rightarrow> getProp Object_prototype key)"

definition assign :: "string \<Rightarrow> jsval \<Rightarrow> jsobj \<Rightarrow> jsobj" where
  "assign key v obj =
     (if key = ''__proto__'' \<and> \<not> hasOwnProperty obj key then obj
      else setProp key v obj)"

text \<open>\<open>{...a, ...b}\<close>: the properties of \<open>a\<close>, then those of \<open>b\<close> defined over them.\<close>

definition objectSpread :: "jsobj \<Rightarrow> jsobj \<Rightarrow> jsobj" where
  "objectSpread a b = foldl (\<lambda>acc (key, v). setProp key v acc) a b"

text \<open>The truthiness test of \<open>!x\<close> and the nullish test of \<open>x ?? y\<close>.\<close>

fun truthy :: "jsval \<Rightarrow> bool" where
  "truthy JUndefined = False"
| "truthy JNull = False"
| "truthy (JBool b) = b"
| "truthy (JNum n) = (n \<noteq> 0)"
| "truthy (JStr s) = (s \<noteq> [])"
| "truthy (JArr xs) = True"
| "truthy (JObj ps) = True"
| "truthy (JOpaque f) = True"

fun nullish :: "jsval \<Rightarrow> bool" where
  "nullish JUndefined = True"
| "nullish JNull = True"
| "nullish v = False"

text \<open>
  Modelled from the spec: the error class and the error list (\<open>errors\<close>, \<open>errors-list\<close>)
  are not among the sources. The descriptors below are the ones the runtime environment
  raises; a \<open>TrestleError\<close> carries its descriptor and the message parameters it was built
  with. \<open>TypeError\<close> is
  the engine's own error, and \<open>Thrown\<close> is anything else a callback throws.
\<close>

datatype ErrorDescriptor =
    NETWORK_CONFIG_NOT_FOUND
  | ARGUMENTS_UNRECOGNIZED_TASK
  | ARGUMENTS_MISSING_TASK_ARGUMENT
  | ARGUMENTS_INVALID_VALUE_FOR_TYPE
  | TASK_DEFINITIONS_RUNSUPER_NOT_AVAILABLE

datatype error =
    TrestleError ErrorDescriptor "(string \<times> string) list"
  | TypeError string
  | Thrown jsval

section \<open>Parameter definitions and argument resolution (runtime-env.ts)\<close>

text \<open>
  Modelled from the spec: the declarations of \<open>types.ts\<close> are not among the sources. A
  parameter definition has a name, a default value (\<open>undefined\<close> when none is declared),
  an optional type whose optional \<open>validate\<close> method throws on a mismatch, and the two
  flags. A validator returns \<open>None\<close> when it accepts and the error it throws otherwise.
\<close>

record ArgumentType =
  typeName :: string
  validate :: "(string \<Rightarrow> jsval \<Rightarrow> error option) option"

record ParamDefinition =
  name :: string
  defaultValue :: jsval
  type :: "ArgumentType option"
  isOptional :: bool
  isVariadic :: bool

text \<open>
  \<open>for (const value of container)\<close>: an array gives its elements, a string its
  characters, and any other value is not iterable.
\<close>

fun iterate :: "jsval \<Rightarrow> error + jsval list" where
  "iterate (JArr xs) = Inr xs"
| "iterate (JStr s) = Inr (map (\<lambda>c. JStr [c]) s)"
| "iterate v = Inl (TypeError ''argumentValueContainer is not iterable'')"

text \<open>The loop body \<open>type.validate(paramName, value)\<close>: the first throw ends the loop.\<close>

fun validateAll :: "(string \<Rightarrow> jsval \<Rightarrow> error option) \<Rightarrow> string \<Rightarrow> jsval list \<Rightarrow> error option" where
  "validateAll check paramName [] = None"
| "validateAll check paramName (v # vs) =
     (case check paramName v of
        Some e \<Rightarrow> Some e
      | None \<Rightarrow> validateAll check paramName vs)"

definition checkTypeValidation :: "ParamDefinition \<Rightarrow> jsval \<Rightarrow> error option" where
  "checkTypeValidation paramDefinition argumentValue =
     (case type paramDefinition of
        None \<Rightarrow> None
      | Some t \<Rightarrow>
          (case validate t of
             None \<Rightarrow> None
           | Some check \<Rightarrow>
               (case (if isVariadic paramDefinition then iterate argumentValue
                      else Inr [argumentValue]) of
                  Inl e \<Rightarrow> Some e
                | Inr argumentValueContainer \<Rightarrow>
                    validateAll check (name paramDefinition) argumentValueContainer)))"

definition resolveArgument :: "ParamDefinition \<Rightarrow> jsval \<Rightarrow> error + jsval" where
  "resolveArgument paramDefinition argumentValue =
     (if argumentValue = JUndefined then
        (if isOptional paramDefinition then Inr (defaultValue paramDefinition)
         else Inl (TrestleError ARGUMENTS_MISSING_TASK_ARGUMENT
                     [(''param'', name paramDefinition)]))
      else
        (case checkTypeValidation paramDefinition argumentValue of
           Some e \<Rightarrow> Inl e
         | None \<Rightarrow> Inr argumentValue))"

text \<open>
  The accumulator \<open>{errors, values}\<close> of the \<open>reduce\<close> (its second field is called
  \<open>resolvedValues\<close> here, the name the source gives it after the loop) and the callback.
\<close>

record ResolvedArguments =
  errors :: "error list"
  resolvedValues :: jsobj

definition initResolvedArguments :: ResolvedArguments where
  "initResolvedArguments = \<lparr>errors = [], resolvedValues = []\<rparr>"

definition resolveStep :: "jsobj \<Rightarrow> ResolvedArguments \<Rightarrow> ParamDefinition \<Rightarrow> ResolvedArguments" where
  "resolveStep taskArguments acc paramDefinition =
     (let paramName = name paramDefinition;
          argumentValue = readMember taskArguments paramName
      in case resolveArgument paramDefinition argumentValue of
           Inl e \<Rightarrow> acc\<lparr>errors := errors acc @ [e]\<rparr>
         | Inr resolvedArgumentValue \<Rightarrow>
             (if resolvedArgumentValue \<noteq> JUndefined
              then acc\<lparr>resolvedValues := assign paramName resolvedArgumentValue (resolvedValues acc)\<rparr>
              else acc))"

definition allTaskParamDefinitions ::
  "(string \<times> ParamDefinition) list \<Rightarrow> ParamDefinition list \<Rightarrow> ParamDefinition list" where
  "allTaskParamDefinitions paramDefinitions positionalParamDefinitions =
     Object_values paramDefinitions @ positionalParamDefinitions"

definition reduced :: "jsobj \<Rightarrow> ParamDefinition list \<Rightarrow> ResolvedArguments" where
  "reduced taskArguments defs = foldl (resolveStep taskArguments) initResolvedArguments defs"

definition resolvedArguments ::
  "(string \<times> ParamDefinition) list \<Rightarrow> ParamDefinition list \<Rightarrow> jsobj \<Rightarrow> ResolvedArguments" where
  "resolvedArguments paramDefinitions positionalParamDefinitions taskArguments =
     reduced taskArguments
       (allTaskParamDefinitions paramDefinitions positionalParamDefinitions)"

section \<open>Task definitions and the execution routine (runtime-env.ts)\<close>

text \<open>
  The process-wide state a task execution touches: the global object and the own
  enumerable properties of the environment instance (\<open>this\<close>). An action receives both
  by reference and may change either.
\<close>

record World =
  global :: jsobj
  this :: jsobj

text \<open>
  The \<open>runSuper\<close> callable: its \<open>isDefined\<close> marker and what a call does. A call with no
  argument (or \<open>undefined\<close>) is \<open>None\<close>. A call returns the value the promise resolves
  to, or the error it rejects with, and the state it leaves.
\<close>

record RunSuperFunction =
  isDefined :: bool
  invoke :: "jsobj option \<Rightarrow> World \<Rightarrow> (error + jsval) \<times> World"

text \<open>
  An action is called as \<open>action(taskArguments, this, runSuper)\<close>; the environment it is
  handed is the \<open>this\<close> of the world it runs in.
\<close>

type_synonym ActionType = "jsobj \<Rightarrow> RunSuperFunction \<Rightarrow> World \<Rightarrow> (error + jsval) \<times> World"

text \<open>
  Modelled from the spec: the task-definition classes (\<open>tasks/task-definitions\<close>) are not
  among the sources. A task definition has a name, named and positional parameter
  definitions and an action; an overridden one also refers to the definition it replaces.
\<close>

datatype TaskDefinition =
    SimpleTaskDefinition
      (taskName: string)
      (paramDefinitions: "(string \<times> ParamDefinition) list")
      (positionalParamDefinitions: "ParamDefinition list")
      (action: ActionType)
  | OverriddenTaskDefinition
      (parentTaskDefinition: TaskDefinition)
      (taskName: string)
      (paramDefinitions: "(string \<times> ParamDefinition) list")
      (positionalParamDefinitions: "ParamDefinition list")
      (action: ActionType)

definition resolveValidTaskArguments :: "TaskDefinition \<Rightarrow> jsobj \<Rightarrow> error + jsobj" where
  "resolveValidTaskArguments taskDefinition taskArguments =
     (let r = resolvedArguments (paramDefinitions taskDefinition)
                (positionalParamDefinitions taskDefinition) taskArguments
      in case errors r of
           e # _ \<Rightarrow> Inl e
         | [] \<Rightarrow> Inr (objectSpread taskArguments (resolvedValues r)))"

definition BLACKLISTED_PROPERTIES :: "string list" where
  "BLACKLISTED_PROPERTIES = [''injectToGlobal'', ''_runTaskDefinition'']"

text \<open>
  \<open>injectToGlobal\<close>: the first loop records the global's value under every property name
  of \<open>this\<close> that is not blacklisted and overwrites it; the returned closure runs the second
  loop, over the properties \<open>this\<close> has when the closure is called.
\<close>

definition injectLoop :: "string list \<Rightarrow> jsobj \<Rightarrow> jsobj \<Rightarrow> jsobj \<times> jsobj" where
  "injectLoop blacklist entries globalAsAny =
     foldl (\<lambda>(previousValues, g) (key, v).
              if key \<in> set blacklist then (previousValues, g)
              else (assign key (readMember g key) previousValues, assign key v g))
       ([], globalAsAny) entries"

definition restoreLoop :: "string list \<Rightarrow> jsobj \<Rightarrow> jsobj \<Rightarrow> jsobj \<Rightarrow> jsobj" where
  "restoreLoop blacklist previousValues entries globalAsAny =
     foldl (\<lambda>g (key, v).
              if key \<in> set blacklist then g
              else assign key (readMember previousValues key) g)
       globalAsAny entries"

definition injectToGlobal :: "string list \<Rightarrow> World \<Rightarrow> (World \<Rightarrow> World) \<times> World" where
  "injectToGlobal blacklist w =
     (let (previousValues, g) = injectLoop blacklist (this w) (global w)
      in (\<lambda>w'. w'\<lparr>global := restoreLoop blacklist previousValues (this w') (global w')\<rparr>,
          w\<lparr>global := g\<rparr>))"

text \<open>The value stored under the global name \<open>runSuper\<close>: the callable, as an opaque value.\<close>

definition runSuperValue :: "RunSuperFunction \<Rightarrow> jsval" where
  "runSuperValue runSuper = JOpaque ''runSuper''"

text \<open>
  The second half of \<open>_runTaskDefinition\<close>: publish \<open>runSuper\<close> and the environment, call the
  action, and undo both in the \<open>finally\<close> block whatever the action's outcome.
\<close>

definition published :: "RunSuperFunction \<Rightarrow> World \<Rightarrow> (World \<Rightarrow> World) \<times> World" where
  "published runSuper w =
     injectToGlobal BLACKLISTED_PROPERTIES
       (w\<lparr>global := setProp ''runSuper'' (runSuperValue runSuper) (global w)\<rparr>)"

definition runAction ::
  "TaskDefinition \<Rightarrow> RunSuperFunction \<Rightarrow> jsobj \<Rightarrow> World \<Rightarrow> (error + jsval) \<times> World" where
  "runAction taskDefinition runSuper taskArguments w =
     (let previousRunSuper = getProp (global w) ''runSuper'';
          (uninjectFromGlobal, w1) = published runSuper w;
          (outcome, w2) = action taskDefinition taskArguments runSuper w1;
          w3 = uninjectFromGlobal w2
      in (outcome, w3\<lparr>global := setProp ''runSuper'' previousRunSuper (global w3)\<rparr>))"

fun runTaskDefinition :: "TaskDefinition \<Rightarrow> jsobj \<Rightarrow> World \<Rightarrow> (error + jsval) \<times> World"
  and runSuperFunction :: "TaskDefinition \<Rightarrow> jsobj \<Rightarrow> RunSuperFunction"
where
  "runTaskDefinition taskDefinition taskArguments w =
     runAction taskDefinition (runSuperFunction taskDefinition taskArguments) taskArguments w"
| "runSuperFunction (OverriddenTaskDefinition parent n pds ppds a) taskArguments =
     \<lparr>isDefined = True,
      invoke = (\<lambda>given w.
        runTaskDefinition parent
          (case given of None \<Rightarrow> taskArguments | Some taskArguments' \<Rightarrow> taskArguments') w)\<rparr>"
| "runSuperFunction (SimpleTaskDefinition n pds ppds a) taskArguments =
     \<lparr>isDefined = False,
      invoke = (\<lambda>given w.
        (Inl (TrestleError TASK_DEFINITIONS_RUNSUPER_NOT_AVAILABLE [(''taskName'', n)]), w))\<rparr>"

section \<open>The environment's constructor (runtime-env.ts)\<close>

text \<open>
  Modelled from the spec: \<open>RuntimeArgs\<close> (\<open>types.ts\<close>) is not among the sources. It holds the
  selected network's name and the other parsed flags.
\<close>

record RuntimeArgs =
  network :: string
  otherArgs :: jsobj

text \<open>
  \<open>value[key]\<close> on any value: reading a property of \<open>undefined\<close> or \<open>null\<close> throws and an
  object gives its own or inherited member. Any other value (a primitive, an array, a
  function) gives the member it inherits from \<open>Object.prototype\<close>; the members of its own
  kind (a length, an index) are not modelled: \<open>ResolvedConfig\<close> types \<open>networks\<close> as an
  object.
\<close>

fun readProperty :: "jsval \<Rightarrow> string \<Rightarrow> error + jsval" where
  "readProperty JUndefined key = Inl (TypeError ''Cannot read properties of undefined'')"
| "readProperty JNull key = Inl (TypeError ''Cannot read properties of null'')"
| "readProperty (JObj ps) key = Inr (readMember ps key)"
| "readProperty v key = Inr (readMember [] key)"

text \<open>An extender changes the environment it is handed, or throws.\<close>

type_synonym EnvironmentExtender = "jsobj \<Rightarrow> error + jsobj"

fun forEachExtender :: "EnvironmentExtender list \<Rightarrow> jsobj \<Rightarrow> error + jsobj" where
  "forEachExtender [] env = Inr env"
| "forEachExtender (extender # rest) env =
     (case extender env of
        Inl e \<Rightarrow> Inl e
      | Inr env' \<Rightarrow> forEachExtender rest env')"

text \<open>
  The instance once the constructor has assigned its fields, before the extenders run:
  the parameter properties, the \<open>run\<close> property, \<open>_extenders\<close> and \<open>network\<close>.
\<close>

definition constructed ::
  "jsobj \<Rightarrow> RuntimeArgs \<Rightarrow> (string \<times> TaskDefinition) list \<Rightarrow> EnvironmentExtender list \<Rightarrow> jsval \<Rightarrow> jsobj" where
  "constructed config runtimeArgs tasks extenders ncfg =
     [(''config'', JObj config),
      (''runtimeArgs'', JObj ((''network'', JStr (network runtimeArgs)) # otherArgs runtimeArgs)),
      (''tasks'', JObj (map (\<lambda>(n, d). (n, JOpaque ''TaskDefinition'')) tasks)),
      (''run'', JOpaque ''run''),
      (''_extenders'', JArr (map (\<lambda>extender. JOpaque ''EnvironmentExtender'') extenders)),
      (''network'', JObj [(''name'', JStr (network runtimeArgs)), (''config'', ncfg)])]"

definition Environment_constructor ::
  "jsobj \<Rightarrow> RuntimeArgs \<Rightarrow> (string \<times> TaskDefinition) list \<Rightarrow> EnvironmentExtender list \<Rightarrow> bool
     \<Rightarrow> error + jsobj" where
  "Environment_constructor config runtimeArgs tasks extenders networkRequired =
     (case readProperty (getProp config ''networks'') (network runtimeArgs) of
        Inl e \<Rightarrow> Inl e
      | Inr ncfg \<Rightarrow>
          if \<not> truthy ncfg \<and> networkRequired
          then Inl (TrestleError NETWORK_CONFIG_NOT_FOUND [(''network'', network runtimeArgs)])
          else forEachExtender extenders
                 (constructed config runtimeArgs tasks extenders ncfg))"

section \<open>Configuration resolution (config-resolution.ts)\<close>

subsection \<open>The deep merge\<close>

text \<open>
  Modelled from the spec: \<open>deepmerge\<close> is a library the repository imports, not among the
  sources. Scalar and object fields merge recursively, the source winning on a conflict;
  two arrays are merged by the \<open>arrayMerge\<close> option; where one side is an array and the
  other is not, the source is taken.
\<close>

fun isMergeableObject :: "jsval \<Rightarrow> bool" where
  "isMergeableObject (JObj ps) = True"
| "isMergeableObject (JArr xs) = True"
| "isMergeableObject v = False"

fun deepmerge :: "(jsval list \<Rightarrow> jsval list \<Rightarrow> jsval) \<Rightarrow> jsval \<Rightarrow> jsval \<Rightarrow> jsval"
  and mergeObject :: "(jsval list \<Rightarrow> jsval list \<Rightarrow> jsval) \<Rightarrow> jsobj \<Rightarrow> jsobj \<Rightarrow> jsobj \<Rightarrow> jsobj"
where
  "deepmerge arrayMerge target (JArr s) =
     (case target of JArr t \<Rightarrow> arrayMerge t s | _ \<Rightarrow> JArr s)"
| "deepmerge arrayMerge target (JObj s) =
     (case target of
        JArr t \<Rightarrow> JObj s
      | JObj t \<Rightarrow> JObj (mergeObject arrayMerge t t s)
      | _ \<Rightarrow> JObj (mergeObject arrayMerge [] [] s))"
| "deepmerge arrayMerge target source = source"
| "mergeObject arrayMerge target destination [] = destination"
| "mergeObject arrayMerge target destination ((key, v) # rest) =
     mergeObject arrayMerge target
       (setProp key
          (if hasOwnProperty target key \<and> isMergeableObject v
           then deepmerge arrayMerge (getProp target key) v
           else v)
          destination)
       rest"

definition arrayMerge :: "jsval list \<Rightarrow> jsval list \<Rightarrow> jsval" where
  "arrayMerge destination source = JArr source"

definition mergeUserAndDefaultConfigs :: "jsobj \<Rightarrow> jsobj \<Rightarrow> jsval" where
  "mergeUserAndDefaultConfigs defaultConfig userConfig =
     deepmerge arrayMerge (JObj defaultConfig) (JObj userConfig)"

subsection \<open>Paths\<close>

text \<open>
  Modelled from the spec: Node's \<open>path\<close> module is not among the sources. These are its
  POSIX \<open>isAbsolute\<close>, \<open>normalize\<close>, \<open>join\<close> and \<open>dirname\<close>: a path is absolute when it starts
  with a slash; joining puts a slash between the non-empty parts and normalises the
  result (empty and \<open>.\<close> segments dropped, \<open>..\<close> resolved); the directory name is the
  path up to its last slash that is followed by a name.
\<close>

definition path_isAbsolute :: "string \<Rightarrow> bool" where
  "path_isAbsolute p = (case p of [] \<Rightarrow> False | c # cs \<Rightarrow> c = CHR ''/'')"

fun splitSlash :: "string \<Rightarrow> string list" where
  "splitSlash [] = [[]]"
| "splitSlash (c # cs) =
     (if c = CHR ''/'' then [] # splitSlash cs
      else (case splitSlash cs of
              seg # segs \<Rightarrow> (c # seg) # segs
            | [] \<Rightarrow> [[c]]))"

fun joinSlash :: "string list \<Rightarrow> string" where
  "joinSlash [] = []"
| "joinSlash [seg] = seg"
| "joinSlash (seg # segs) = seg @ ''/'' @ joinSlash segs"

fun normalizeString :: "bool \<Rightarrow> string list \<Rightarrow> string list \<Rightarrow> string list" where
  "normalizeString allowAboveRoot res [] = rev res"
| "normalizeString allowAboveRoot res (seg # segs) =
     (if seg = [] \<or> seg = ''.'' then normalizeString allowAboveRoot res segs
      else if seg = ''..'' then
        (case res of
           r # rs \<Rightarrow>
             if r \<noteq> ''..'' then normalizeString allowAboveRoot rs segs
             else if allowAboveRoot then normalizeString allowAboveRoot (''..'' # res) segs
             else normalizeString allowAboveRoot res segs
         | [] \<Rightarrow>
             if allowAboveRoot then normalizeString allowAboveRoot [''..''] segs
             else normalizeString allowAboveRoot [] segs)
      else normalizeString allowAboveRoot (seg # res) segs)"

definition path_normalize :: "string \<Rightarrow> string" where
  "path_normalize p =
     (if p = [] then ''.''
      else
        (let isAbsolute = (hd p = CHR ''/'');
             trailingSeparator = (last p = CHR ''/'');
             q = joinSlash (normalizeString (\<not> isAbsolute) [] (splitSlash p))
         in if q = [] then (if isAbsolute then ''/'' else if trailingSeparator then ''./'' else ''.'')
            else (if isAbsolute then ''/'' else []) @ q @ (if trailingSeparator then ''/'' else [])))"

definition path_join :: "string list \<Rightarrow> string" where
  "path_join args =
     (let parts = filter (\<lambda>arg. arg \<noteq> []) args
      in if parts = [] then ''.'' else path_normalize (joinSlash parts))"

definition path_dirname :: "string \<Rightarrow> string" where
  "path_dirname p =
     (case p of
        [] \<Rightarrow> ''.''
      | c # cs \<Rightarrow>
          (let hasRoot = (c = CHR ''/'');
               back = dropWhile (\<lambda>x. x \<noteq> CHR ''/'') (dropWhile (\<lambda>x. x = CHR ''/'') (rev cs))
           in case back of
                [] \<Rightarrow> (if hasRoot then ''/'' else ''.'')
              | slash # front \<Rightarrow>
                  (if hasRoot \<and> front = [] then ''//'' else c # rev front)))"

subsection \<open>Project paths\<close>

text \<open>
  \<open>UserPaths\<close> and \<open>ProjectPathsConfig\<close> are objects whose values are strings; an optional
  string parameter or property is \<open>None\<close> when it is \<open>undefined\<close>.
\<close>

type_synonym StrMap = "(string \<times> string) list"

text \<open>
  Modelled from the spec: \<open>fromEntries\<close> (\<open>util/lang\<close>) is not among the sources. It builds
  the object that has the given entries, a later entry replacing an earlier one of the
  same name.
\<close>

definition fromEntries :: "(string \<times> string) list \<Rightarrow> StrMap" where
  "fromEntries entries = foldl (\<lambda>obj (key, v). AList.update key v obj) [] entries"

definition resolvePathFrom :: "string \<Rightarrow> string \<Rightarrow> string option \<Rightarrow> string" where
  "resolvePathFrom from defaultPath given =
     (let relativeOrAbsolutePath = (case given of None \<Rightarrow> defaultPath | Some p \<Rightarrow> p)
      in if path_isAbsolute relativeOrAbsolutePath then relativeOrAbsolutePath
         else path_join [from, relativeOrAbsolutePath])"

definition resolveProjectPaths :: "string \<Rightarrow> StrMap option \<Rightarrow> StrMap" where
  "resolveProjectPaths userConfigPath given =
     (let userPaths = (case given of None \<Rightarrow> [] | Some u \<Rightarrow> u);
          configDir = path_dirname userConfigPath;
          root = resolvePathFrom configDir [] (map_of userPaths ''root'');
          otherPathsEntries = map (\<lambda>(name, v). (name, resolvePathFrom root v None)) userPaths;
          otherPaths = fromEntries otherPathsEntries
      in foldl (\<lambda>obj (key, v). AList.update key v obj) otherPaths
           [(''root'', root),
            (''configFile'', userConfigPath),
            (''sources'', resolvePathFrom root ''contracts'' (map_of userPaths ''sources'')),
            (''cache'', resolvePathFrom root ''cache'' (map_of userPaths ''cache'')),
            (''artifacts'', resolvePathFrom root ''artifacts'' (map_of userPaths ''artifacts'')),
            (''tests'', resolvePathFrom root ''test'' (map_of userPaths ''tests''))])"

subsection \<open>resolveConfig\<close>

text \<open>
  \<open>userConfig.paths\<close> is an untyped value when \<open>resolveProjectPaths\<close> receives it.
  \<open>undefined\<close> takes the parameter's default; \<open>null\<close> fails at \<open>userPaths.root\<close>; any other
  value is read through \<open>Object.entries\<close> (an array or a string lists its indices, another
  primitive nothing), and an entry that is not a string fails in \<open>path.isAbsolute\<close>.
\<close>

fun decimal :: "nat \<Rightarrow> string" where
  "decimal n =
     (if n < 10 then [char_of (48 + n)]
      else decimal (n div 10) @ [char_of (48 + n mod 10)])"

definition indexed :: "jsval list \<Rightarrow> jsobj" where
  "indexed xs = map (\<lambda>(i, v). (decimal i, v)) (zip [0..<length xs] xs)"

fun Object_entries :: "jsval \<Rightarrow> error + jsobj" where
  "Object_entries JUndefined = Inl (TypeError ''Cannot convert undefined or null to object'')"
| "Object_entries JNull = Inl (TypeError ''Cannot convert undefined or null to object'')"
| "Object_entries (JObj ps) = Inr ps"
| "Object_entries (JArr xs) = Inr (indexed xs)"
| "Object_entries (JStr s) = Inr (indexed (map (\<lambda>c. JStr [c]) s))"
| "Object_entries v = Inr []"

fun stringEntries :: "jsobj \<Rightarrow> error + StrMap" where
  "stringEntries [] = Inr []"
| "stringEntries ((key, JStr s) # rest) =
     (case stringEntries rest of
        Inl e \<Rightarrow> Inl e
      | Inr entries \<Rightarrow> Inr ((key, s) # entries))"
| "stringEntries ((key, v) # rest) =
     Inl (TypeError ''The path argument must be of type string'')"

definition userPathsOf :: "jsval \<Rightarrow> error + StrMap option" where
  "userPathsOf v =
     (if v = JUndefined then Inr None
      else (case Object_entries v of
              Inl e \<Rightarrow> Inl e
            | Inr ps \<Rightarrow>
                (case stringEntries ps of
                   Inl e \<Rightarrow> Inl e
                 | Inr entries \<Rightarrow> Inr (Some entries))))"

definition pathsValue :: "StrMap \<Rightarrow> jsval" where
  "pathsValue paths = JObj (map (\<lambda>(key, p). (key, JStr p)) paths)"

text \<open>A config extender changes the resolved object it is handed, or throws.\<close>

type_synonym ConfigExtender = "jsobj \<Rightarrow> jsobj \<Rightarrow> error + jsobj"

fun applyConfigExtenders :: "ConfigExtender list \<Rightarrow> jsobj \<Rightarrow> jsobj \<Rightarrow> error + jsobj" where
  "applyConfigExtenders [] userConfig resolved = Inr resolved"
| "applyConfigExtenders (extender # rest) userConfig resolved =
     (case extender resolved userConfig of
        Inl e \<Rightarrow> Inl e
      | Inr resolved' \<Rightarrow> applyConfigExtenders rest userConfig resolved')"

text \<open>
  The object literal \<open>{...config, paths, networks: config.networks ?? {}}\<close>, built before
  the extenders run. The merged \<open>config\<close> is an object; \<open>propertiesOf\<close> reads its properties.
\<close>

fun propertiesOf :: "jsval \<Rightarrow> jsobj" where
  "propertiesOf (JObj ps) = ps"
| "propertiesOf v = []"

definition resolvedLiteral :: "jsval \<Rightarrow> jsval \<Rightarrow> jsobj" where
  "resolvedLiteral config paths =
     (let networks = getProp (propertiesOf config) ''networks''
      in setProp ''networks'' (if nullish networks then JObj [] else networks)
           (setProp ''paths'' paths (objectSpread [] (propertiesOf config))))"

definition resolveConfig ::
  "string option \<Rightarrow> jsobj \<Rightarrow> jsobj \<Rightarrow> ConfigExtender list \<Rightarrow> error + jsobj" where
  "resolveConfig userConfigPath defaultConfig userConfig configExtenders =
     (let config = mergeUserAndDefaultConfigs defaultConfig userConfig
      in case (case userConfigPath of
                 None \<Rightarrow> Inr JUndefined
               | Some p \<Rightarrow>
                   (case userPathsOf (getProp userConfig ''paths'') of
                      Inl e \<Rightarrow> Inl e
                    | Inr userPaths \<Rightarrow> Inr (pathsValue (resolveProjectPaths p userPaths)))) of
           Inl e \<Rightarrow> Inl e
         | Inr paths \<Rightarrow>
             applyConfigExtenders configExtenders userConfig (resolvedLiteral config paths))"

section \<open>Notions the properties are stated with\<close>

text \<open>
  The names every object inherits a member under; the parameter definitions a task
  declares, in the order \<open>_resolveValidTaskArguments\<close> processes them; and the error
  resolving one of them raises, if any.
\<close>

definition inheritedNames :: "string list" where
  "inheritedNames = Object_keys Object_prototype"

definition declaredParams :: "TaskDefinition \<Rightarrow> ParamDefinition list" where
  "declaredParams taskDefinition =
     allTaskParamDefinitions (paramDefinitions taskDefinition)
       (positionalParamDefinitions taskDefinition)"

definition errorOf :: "jsobj \<Rightarrow> ParamDefinition \<Rightarrow> error option" where
  "errorOf taskArguments paramDefinition =
     (case resolveArgument paramDefinition (readMember taskArguments (name paramDefinition)) of
        Inl e \<Rightarrow> Some e
      | Inr v \<Rightarrow> None)"

text \<open>
  The property names \<open>injectToGlobal\<close> publishes for a world, and the call of a task's
  action inside \<open>_runTaskDefinition\<close>: its outcome and the world it leaves, before the
  \<open>finally\<close> block runs.
\<close>

definition injectedKeys :: "World \<Rightarrow> string list" where
  "injectedKeys w = filter (\<lambda>key. key \<notin> set BLACKLISTED_PROPERTIES) (Object_keys (this w))"

definition actionRun :: "TaskDefinition \<Rightarrow> jsobj \<Rightarrow> World \<Rightarrow> (error + jsval) \<times> World" where
  "actionRun taskDefinition taskArguments w =
     action taskDefinition taskArguments (runSuperFunction taskDefinition taskArguments)
       (snd (published (runSuperFunction taskDefinition taskArguments) w))"

text \<open>
  A path taken as it is when absolute and joined to a base directory otherwise; the names
  \<open>resolveProjectPaths\<close> sets itself; and the kinds of value a \<open>networks\<close> field may have.
\<close>

definition resolvedAgainst :: "string \<Rightarrow> string \<Rightarrow> string" where
  "resolvedAgainst base p = (if path_isAbsolute p then p else path_join [base, p])"

definition fixedPathNames :: "string list" where
  "fixedPathNames = [''root'', ''configFile'', ''sources'', ''cache'', ''artifacts'', ''tests'']"

fun isObject :: "jsval \<Rightarrow> bool" where
  "isObject (JObj ps) = True"
| "isObject v = False"

definition objectOrUndefined :: "jsval \<Rightarrow> bool" where
  "objectOrUndefined v = (isObject v \<or> v = JUndefined)"

text \<open>
  What the merge stores under a key of the source: the deep merge of the target's and the
  source's values when the target has the key and the source's value is an object or an
  array, and the source's value otherwise.
\<close>

definition mergedValue ::
  "(jsval list \<Rightarrow> jsval list \<Rightarrow> jsval) \<Rightarrow> jsobj \<Rightarrow> string \<Rightarrow> jsval \<Rightarrow> jsval" where
  "mergedValue merge target key v =
     (if hasOwnProperty target key \<and> isMergeableObject v
      then deepmerge merge (getProp target key) v
      else v)"

text \<open>
  What is said of the \<open>networks\<close> field of a resolved configuration, for a default and a
  user configuration: the field exists and is neither \<open>undefined\<close> nor \<open>null\<close>; it is the
  empty object when neither input has the field; and it is an object when each input's
  \<open>networks\<close> is an object or \<open>undefined\<close>.
\<close>

definition networksGuarantee :: "jsobj \<Rightarrow> jsobj \<Rightarrow> jsobj \<Rightarrow> bool" where
  "networksGuarantee defaultConfig userConfig resolved =
     (hasOwnProperty resolved ''networks''
      \<and> \<not> nullish (getProp resolved ''networks'')
      \<and> (\<not> hasOwnProperty defaultConfig ''networks'' \<and> \<not> hasOwnProperty userConfig ''networks''
           \<longrightarrow> getProp resolved ''networks'' = JObj [])
      \<and> (objectOrUndefined (getProp defaultConfig ''networks'')
           \<and> objectOrUndefined (getProp userConfig ''networks'')
           \<longrightarrow> isObject (getProp resolved ''networks'')))"

section \<open>Example inputs\<close>

text \<open>
  A task with two named parameters (\<open>account\<close>, and \<open>amount\<close> of an integer type) and three
  positional ones (\<open>recipient\<close>, \<open>memo\<close> with a default, \<open>label\<close> with none), whose
  action returns at once.
\<close>

definition intType :: ArgumentType where
  "intType =
     \<lparr>typeName = ''int'',
      validate = Some (\<lambda>argName v.
        case v of
          JNum n \<Rightarrow> None
        | _ \<Rightarrow> Some (TrestleError ARGUMENTS_INVALID_VALUE_FOR_TYPE
                      [(''name'', argName), (''type'', ''int'')]))\<rparr>"

definition paramAccount :: ParamDefinition where
  "paramAccount =
     \<lparr>name = ''account'', defaultValue = JUndefined, type = None,
      isOptional = False, isVariadic = False\<rparr>"

definition paramAmount :: ParamDefinition where
  "paramAmount =
     \<lparr>name = ''amount'', defaultValue = JUndefined, type = Some intType,
      isOptional = False, isVariadic = False\<rparr>"

definition paramRecipient :: ParamDefinition where
  "paramRecipient =
     \<lparr>name = ''recipient'', defaultValue = JUndefined, type = None,
      isOptional = False, isVariadic = False\<rparr>"

definition paramMemo :: ParamDefinition where
  "paramMemo =
     \<lparr>name = ''memo'', defaultValue = JStr ''none'', type = None,
      isOptional = True, isVariadic = False\<rparr>"

definition paramLabel :: ParamDefinition where
  "paramLabel =
     \<lparr>name = ''label'', defaultValue = JUndefined, type = None,
      isOptional = True, isVariadic = False\<rparr>"

definition noAction :: ActionType where
  "noAction taskArguments runSuper w = (Inr JUndefined, w)"

definition transferTask :: TaskDefinition where
  "transferTask =
     SimpleTaskDefinition ''transfer''
       [(''account'', paramAccount), (''amount'', paramAmount)]
       [paramRecipient, paramMemo, paramLabel]
       noAction"

text \<open>A task whose only parameter is optional and declares no default.\<close>

definition labelTask :: TaskDefinition where
  "labelTask = SimpleTaskDefinition ''tag'' [] [paramLabel] noAction"

text \<open>
  A task with a named optional parameter \<open>fee\<close> (an integer, default 0) and the positional
  \<open>memo\<close>.
\<close>

definition paramFee :: ParamDefinition where
  "paramFee =
     \<lparr>name = ''fee'', defaultValue = JNum 0, type = Some intType,
      isOptional = True, isVariadic = False\<rparr>"

definition paymentTask :: TaskDefinition where
  "paymentTask = SimpleTaskDefinition ''pay'' [(''fee'', paramFee)] [paramMemo] noAction"

text \<open>A task whose only parameter is optional and has the name of an inherited member.\<close>

definition paramConstructor :: ParamDefinition where
  "paramConstructor =
     \<lparr>name = ''constructor'', defaultValue = JStr ''plain'', type = None,
      isOptional = True, isVariadic = False\<rparr>"

definition constructorTask :: TaskDefinition where
  "constructorTask = SimpleTaskDefinition ''make'' [] [paramConstructor] noAction"

text \<open>
  Actions that record their call (a label and the arguments received) in the global
  \<open>log\<close> array and then delegate with \<open>runSuper()\<close> when it is defined; a task overridden
  twice with them.
\<close>

definition logCall :: "string \<Rightarrow> jsobj \<Rightarrow> World \<Rightarrow> World" where
  "logCall label taskArguments w =
     w\<lparr>global :=
         setProp ''log''
           (JArr ((case getProp (global w) ''log'' of JArr calls \<Rightarrow> calls | _ \<Rightarrow> [])
                  @ [JObj [(''action'', JStr label), (''args'', JObj taskArguments)]]))
           (global w)\<rparr>"

definition delegating :: "string \<Rightarrow> ActionType" where
  "delegating label taskArguments runSuper w =
     (if isDefined runSuper then invoke runSuper None (logCall label taskArguments w)
      else (Inr (JStr label), logCall label taskArguments w))"

definition originalTask :: TaskDefinition where
  "originalTask = SimpleTaskDefinition ''build'' [] [] (delegating ''original'')"

definition middleTask :: TaskDefinition where
  "middleTask = OverriddenTaskDefinition originalTask ''build'' [] [] (delegating ''middle'')"

definition outermostTask :: TaskDefinition where
  "outermostTask = OverriddenTaskDefinition middleTask ''build'' [] [] (delegating ''outermost'')"

text \<open>
  A world whose environment has two properties and whose global object holds \<open>foo\<close> and
  an older \<open>config\<close>; an action that fails; one that adds a property \<open>foo\<close> to the
  environment it is handed; one that removes the environment's \<open>network\<close> property.
\<close>

definition smallWorld :: World where
  "smallWorld =
     \<lparr>global = [(''foo'', JNum 5), (''config'', JStr ''old'')],
      this = [(''config'', JObj []), (''network'', JObj [(''name'', JStr ''testnet'')])]\<rparr>"

definition failingAction :: ActionType where
  "failingAction taskArguments runSuper w = (Inl (Thrown (JStr ''boom'')), w)"

definition failingTask :: TaskDefinition where
  "failingTask = SimpleTaskDefinition ''fail'' [] [] failingAction"

definition addingAction :: ActionType where
  "addingAction taskArguments runSuper w =
     (Inr JUndefined, w\<lparr>this := setProp ''foo'' (JNum 1) (this w)\<rparr>)"

definition addingTask :: TaskDefinition where
  "addingTask = SimpleTaskDefinition ''add'' [] [] addingAction"

definition removingAction :: ActionType where
  "removingAction taskArguments runSuper w =
     (Inr JUndefined, w\<lparr>this := filter (\<lambda>(key, v). key \<noteq> ''network'') (this w)\<rparr>)"

definition removingTask :: TaskDefinition where
  "removingTask = SimpleTaskDefinition ''remove'' [] [] removingAction"

text \<open>
  A resolved configuration with one network, runtime arguments that select a network it
  does not have, an extender that records its call in the environment's \<open>order\<close> list, and
  one that throws.
\<close>

definition testnetConfig :: jsobj where
  "testnetConfig =
     [(''networks'', JObj [(''testnet'', JObj [(''endpoint'', JStr ''http://localhost:26657'')])])]"

definition mainnetArgs :: RuntimeArgs where
  "mainnetArgs = \<lparr>network = ''mainnet'', otherArgs = []\<rparr>"

definition recordingExtender :: "string \<Rightarrow> EnvironmentExtender" where
  "recordingExtender label env =
     Inr (setProp ''order''
            (JArr ((case getProp env ''order'' of JArr calls \<Rightarrow> calls | _ \<Rightarrow> []) @ [JStr label]))
            env)"

definition throwingExtender :: EnvironmentExtender where
  "throwingExtender env = Inl (Thrown (JStr ''extender failed''))"

text \<open>A config extender that adds a default network to the resolved configuration.\<close>

definition localnetExtender :: ConfigExtender where
  "localnetExtender resolved userConfig =
     Inr (setProp ''networks''
            (JObj (setProp ''localnet'' (JObj [(''endpoint'', JStr ''http://localhost:26657'')])
                     (propertiesOf (getProp resolved ''networks''))))
            resolved)"

text \<open>A config extender that sets a field other than \<open>networks\<close>.\<close>

definition verboseExtender :: ConfigExtender where
  "verboseExtender resolved userConfig = Inr (setProp ''verbose'' (JBool True) resolved)"

section \<open>Properties\<close>

subsection \<open>Objects\<close>


lemma getProp_setProp: "getProp (setProp k v obj) k' = (if k' = k then v else getProp obj k')"
  by (simp add: getProp_def setProp_def update_conv')

lemma hasOwnProperty_setProp:
  "hasOwnProperty (setProp k v obj) k' = (k' = k \<or> hasOwnProperty obj k')"
  by (auto simp: hasOwnProperty_def setProp_def dom_update)

lemma distinct_setProp: "distinct (map fst obj) \<Longrightarrow> distinct (map fst (setProp k v obj))"
  by (simp add: setProp_def distinct_update)

lemma getProp_absent: "\<not> hasOwnProperty obj k \<Longrightarrow> getProp obj k = JUndefined"
proof -
  assume "\<not> hasOwnProperty obj k"
  then have "map_of obj k = None"
    by (simp add: hasOwnProperty_def map_of_eq_None_iff)
  then show ?thesis by (simp add: getProp_def)
qed

lemma getProp_Cons: "getProp ((k', v) # obj) k = (if k = k' then v else getProp obj k)"
  by (simp add: getProp_def)

lemma hasOwnProperty_Cons:
  "hasOwnProperty ((k', v) # obj) k = (k = k' \<or> hasOwnProperty obj k)"
  by (auto simp: hasOwnProperty_def)

lemma hasOwnProperty_Nil: "hasOwnProperty [] k = False"
  by (simp add: hasOwnProperty_def)

lemma hasOwnProperty_objectSpread:
  "hasOwnProperty (objectSpread a b) k = (hasOwnProperty a k \<or> hasOwnProperty b k)"
  unfolding objectSpread_def
proof (induction b arbitrary: a)
  case Nil
  then show ?case by (simp add: hasOwnProperty_Nil)
next
  case (Cons x b)
  obtain k' v' where x: "x = (k', v')" by (cases x)
  show ?case using Cons.IH [of "setProp k' v' a"]
    by (auto simp: x hasOwnProperty_setProp hasOwnProperty_Cons)
qed

lemma getProp_objectSpread:
  "distinct (map fst b) \<Longrightarrow>
   getProp (objectSpread a b) k = (if hasOwnProperty b k then getProp b k else getProp a k)"
  unfolding objectSpread_def
proof (induction b arbitrary: a)
  case Nil
  then show ?case by (simp add: hasOwnProperty_Nil)
next
  case (Cons x b)
  obtain k' v' where x: "x = (k', v')" by (cases x)
  from Cons.prems have d: "distinct (map fst b)" and nk: "k' \<notin> fst ` set b" by (auto simp: x)
  from nk have nh: "\<not> hasOwnProperty b k'" by (simp add: hasOwnProperty_def)
  show ?case using Cons.IH [OF d, of "setProp k' v' a"] nh
    by (auto simp: x getProp_setProp getProp_Cons hasOwnProperty_Cons)
qed

lemma readMember_own: "hasOwnProperty obj k \<Longrightarrow> readMember obj k = getProp obj k"
proof -
  assume "hasOwnProperty obj k"
  then have "map_of obj k \<noteq> None"
    by (simp add: hasOwnProperty_def map_of_eq_None_iff)
  then show ?thesis by (auto simp: readMember_def getProp_def)
qed

lemma readMember_not_own:
  "\<not> hasOwnProperty obj k \<Longrightarrow> readMember obj k = getProp Object_prototype k"
proof -
  assume "\<not> hasOwnProperty obj k"
  then have "map_of obj k = None"
    by (simp add: hasOwnProperty_def map_of_eq_None_iff)
  then show ?thesis by (simp add: readMember_def)
qed

lemma not_inherited: "k \<notin> set inheritedNames \<Longrightarrow> getProp Object_prototype k = JUndefined"
  by (rule getProp_absent) (simp add: hasOwnProperty_def inheritedNames_def Object_keys_def)

lemma readMember_absent:
  "\<not> hasOwnProperty obj k \<Longrightarrow> k \<notin> set inheritedNames \<Longrightarrow> readMember obj k = JUndefined"
  by (simp add: readMember_not_own not_inherited)

lemma inherited_defined: "getProp Object_prototype k = JUndefined \<Longrightarrow> k \<notin> set inheritedNames"
  by (auto simp: Object_prototype_def inheritedNames_def Object_keys_def getProp_def
        split: if_splits)

lemma readMember_undefined:
  "readMember obj k = JUndefined \<Longrightarrow> getProp obj k = JUndefined"
  by (cases "hasOwnProperty obj k") (simp_all add: readMember_own getProp_absent)

lemma readMember_setProp:
  "readMember (setProp k v obj) k' = (if k' = k then v else readMember obj k')"
  by (simp add: readMember_def setProp_def update_conv')

lemma readMember_Cons:
  "readMember ((k', v) # obj) k = (if k = k' then v else readMember obj k)"
  by (simp add: readMember_def)

lemma assign_setProp: "k \<noteq> ''__proto__'' \<Longrightarrow> assign k v obj = setProp k v obj"
  by (simp add: assign_def)

lemma hasOwnProperty_assign:
  "hasOwnProperty (assign k v obj) k'
     = (hasOwnProperty obj k' \<or> (k' = k \<and> k \<noteq> ''__proto__''))"
  by (auto simp: assign_def hasOwnProperty_setProp)

lemma distinct_assign: "distinct (map fst obj) \<Longrightarrow> distinct (map fst (assign k v obj))"
  by (simp add: assign_def distinct_setProp)

subsection \<open>Argument resolution\<close>

lemma errors_resolveStep:
  "errors (resolveStep args acc p) =
     errors acc @ (case errorOf args p of None \<Rightarrow> [] | Some e \<Rightarrow> [e])"
  by (simp add: resolveStep_def errorOf_def Let_def split: sum.splits)

lemma errors_foldl_resolveStep:
  "errors (foldl (resolveStep args) acc defs) = errors acc @ List.map_filter (errorOf args) defs"
proof (induction defs arbitrary: acc)
  case Nil
  then show ?case by (simp add: List.map_filter_simps)
next
  case (Cons p defs)
  show ?case
    by (simp add: Cons.IH errors_resolveStep List.map_filter_simps split: option.splits)
qed

lemma errors_resolvedArguments:
  "errors (resolvedArguments pds ppds args) =
     List.map_filter (errorOf args) (allTaskParamDefinitions pds ppds)"
  by (simp add: resolvedArguments_def reduced_def errors_foldl_resolveStep
        initResolvedArguments_def)

lemma map_filter_append:
  "List.map_filter f (xs @ ys) = List.map_filter f xs @ List.map_filter f ys"
  by (simp add: List.map_filter_def)

lemma map_filter_all_None:
  "(\<forall>x\<in>set xs. f x = None) \<Longrightarrow> List.map_filter f xs = []"
  by (induction xs) (simp_all add: List.map_filter_simps)

lemma map_filter_Nil_iff:
  "(List.map_filter f xs = []) = (\<forall>x\<in>set xs. f x = None)"
  by (induction xs) (auto simp: List.map_filter_simps split: option.splits)

lemma declaredParams_eq:
  "declaredParams td = map snd (paramDefinitions td) @ positionalParamDefinitions td"
  by (simp add: declaredParams_def allTaskParamDefinitions_def Object_values_def)

lemma reduced_Nil: "resolvedValues (reduced args []) = []"
  by (simp add: reduced_def initResolvedArguments_def)

lemma reduced_snoc:
  "resolvedValues (reduced args (defs @ [p])) =
     (case resolveArgument p (readMember args (name p)) of
        Inl e \<Rightarrow> resolvedValues (reduced args defs)
      | Inr v \<Rightarrow> if v \<noteq> JUndefined then assign (name p) v (resolvedValues (reduced args defs))
                 else resolvedValues (reduced args defs))"
  by (simp add: reduced_def resolveStep_def Let_def split: sum.splits)

lemma distinct_reduced: "distinct (map fst (resolvedValues (reduced args defs)))"
proof (induction defs rule: rev_induct)
  case Nil
  then show ?case by (simp add: reduced_Nil)
next
  case (snoc p defs)
  then show ?case
    by (simp add: reduced_snoc distinct_assign split: sum.splits)
qed

lemma no_proto_reduced: "\<not> hasOwnProperty (resolvedValues (reduced args defs)) ''__proto__''"
proof (induction defs rule: rev_induct)
  case Nil
  then show ?case by (simp add: reduced_Nil hasOwnProperty_Nil)
next
  case (snoc p defs)
  then show ?case
    by (simp add: reduced_snoc hasOwnProperty_assign split: sum.splits)
qed

lemma hasOwnProperty_reduced:
  "hasOwnProperty (resolvedValues (reduced args defs)) k =
     (k \<noteq> ''__proto__'' \<and>
      (\<exists>p\<in>set defs. name p = k \<and>
         (\<exists>v. resolveArgument p (readMember args k) = Inr v \<and> v \<noteq> JUndefined)))"
proof (induction defs rule: rev_induct)
  case Nil
  then show ?case by (simp add: reduced_Nil hasOwnProperty_Nil)
next
  case (snoc p defs)
  show ?case
  proof (cases "resolveArgument p (readMember args (name p))")
    case (Inl e)
    then show ?thesis using snoc.IH by (auto simp: reduced_snoc)
  next
    case (Inr v)
    then show ?thesis using snoc.IH
      by (auto simp: reduced_snoc hasOwnProperty_assign)
  qed
qed

lemma getProp_reduced:
  "hasOwnProperty (resolvedValues (reduced args defs)) k \<Longrightarrow>
     getProp (resolvedValues (reduced args defs)) k \<noteq> JUndefined \<and>
     (\<exists>p\<in>set defs. name p = k \<and>
        resolveArgument p (readMember args k) = Inr (getProp (resolvedValues (reduced args defs)) k))"
proof (induction defs rule: rev_induct)
  case Nil
  then show ?case by (simp add: reduced_Nil hasOwnProperty_Nil)
next
  case (snoc p defs)
  from snoc.prems no_proto_reduced [of args "defs @ [p]"] have np: "k \<noteq> ''__proto__''"
    by auto
  show ?case
  proof (cases "resolveArgument p (readMember args (name p))")
    case (Inl e)
    then show ?thesis using snoc by (auto simp: reduced_snoc)
  next
    case (Inr v)
    show ?thesis
    proof (cases "v \<noteq> JUndefined \<and> name p = k")
      case True
      then show ?thesis using Inr np
        by (auto simp: reduced_snoc assign_setProp getProp_setProp)
    next
      case False
      then have "hasOwnProperty (resolvedValues (reduced args defs)) k"
        using snoc.prems Inr by (auto simp: reduced_snoc hasOwnProperty_assign split: if_splits)
      from snoc.IH [OF this] show ?thesis using Inr False
        by (auto simp: reduced_snoc assign_def getProp_setProp)
    qed
  qed
qed

lemma resolveArgument_provided:
  "v \<noteq> JUndefined \<Longrightarrow> resolveArgument p v = Inr v' \<Longrightarrow> v' = v \<and> checkTypeValidation p v = None"
  by (auto simp: resolveArgument_def split: option.splits)

lemma resolveArgument_absent:
  "resolveArgument p JUndefined = Inr v' \<Longrightarrow> isOptional p \<and> v' = defaultValue p"
  by (auto simp: resolveArgument_def split: if_splits)

lemma resolvedArguments_reduced:
  "resolvedArguments (paramDefinitions td) (positionalParamDefinitions td) args
     = reduced args (declaredParams td)"
  by (simp add: resolvedArguments_def declaredParams_def)

lemma resolve_Inr:
  assumes "resolveValidTaskArguments td args = Inr res"
  shows "res = objectSpread args (resolvedValues (reduced args (declaredParams td)))"
    and "\<forall>p\<in>set (declaredParams td). errorOf args p = None"
proof -
  from assms have e: "errors (reduced args (declaredParams td)) = []"
    and r: "res = objectSpread args (resolvedValues (reduced args (declaredParams td)))"
    by (auto simp: resolveValidTaskArguments_def Let_def resolvedArguments_reduced split: list.splits)
  from r show "res = objectSpread args (resolvedValues (reduced args (declaredParams td)))" .
  from e have "List.map_filter (errorOf args) (declaredParams td) = []"
    by (simp add: reduced_def errors_foldl_resolveStep initResolvedArguments_def)
  then show "\<forall>p\<in>set (declaredParams td). errorOf args p = None"
    by (simp add: map_filter_Nil_iff)
qed

lemmas example_params =
  paramAccount_def paramAmount_def paramRecipient_def paramMemo_def paramLabel_def intType_def

lemma declaredParams_transferTask:
  "declaredParams transferTask = [paramAccount, paramAmount, paramRecipient, paramMemo, paramLabel]"
  by (simp add: declaredParams_def transferTask_def allTaskParamDefinitions_def Object_values_def)

lemma resolveValid_unfold:
  "resolveValidTaskArguments td args =
     (case errors (reduced args (declaredParams td)) of
        e # es \<Rightarrow> Inl e
      | [] \<Rightarrow> Inr (objectSpread args (resolvedValues (reduced args (declaredParams td)))))"
  by (simp add: resolveValidTaskArguments_def Let_def resolvedArguments_reduced)

lemmas resolve_eval =
  resolveValid_unfold reduced_def resolveStep_def initResolvedArguments_def resolveArgument_def
  checkTypeValidation_def readMember_def assign_def Object_prototype_def getProp_def setProp_def
  objectSpread_def hasOwnProperty_def Let_def

text \<open>
  C1 (as amended). Whenever argument resolution returns a mapping, take a declared
  parameter, named or positional, whose name is not \<open>__proto__\<close>. If the value read under
  its name is not \<open>undefined\<close>, the parameter is a key of the mapping, bound to that value,
  which its validator accepted. If the value read is \<open>undefined\<close>, the parameter is
  optional, and the mapping reads under its name the default of a declared parameter of
  that name: its own default when the declared names are distinct. It is a key of the
  mapping when it declares a default; when it declares none, it is a key only if the raw
  arguments already had it. The value read under a name is the raw arguments' own entry
  when they have one, and \<open>undefined\<close> when they have none and the name is not one every
  object inherits a member under.
\<close>

theorem resolved_arguments_hold_value_or_default:
  assumes ok: "resolveValidTaskArguments td args = Inr res"
    and p: "p \<in> snd ` set (paramDefinitions td) \<or> p \<in> set (positionalParamDefinitions td)"
    and np: "name p \<noteq> ''__proto__''"
  shows "(readMember args (name p) \<noteq> JUndefined \<longrightarrow>
            hasOwnProperty res (name p)
          \<and> getProp res (name p) = readMember args (name p)
          \<and> checkTypeValidation p (readMember args (name p)) = None)
       \<and> (readMember args (name p) = JUndefined \<longrightarrow>
            isOptional p
          \<and> (defaultValue p \<noteq> JUndefined \<longrightarrow> hasOwnProperty res (name p))
          \<and> (\<exists>q\<in>set (map snd (paramDefinitions td) @ positionalParamDefinitions td).
                name q = name p \<and> getProp res (name p) = defaultValue q)
          \<and> (distinct (map name (map snd (paramDefinitions td) @ positionalParamDefinitions td)) \<longrightarrow>
                getProp res (name p) = defaultValue p
              \<and> (defaultValue p = JUndefined \<longrightarrow>
                    hasOwnProperty res (name p) = hasOwnProperty args (name p))))
       \<and> (hasOwnProperty args (name p) \<longrightarrow> readMember args (name p) = getProp args (name p))
       \<and> (\<not> hasOwnProperty args (name p) \<and> name p \<notin> set inheritedNames \<longrightarrow>
            readMember args (name p) = JUndefined)"
proof -
  let ?defs = "declaredParams td"
  let ?vals = "resolvedValues (reduced args ?defs)"
  let ?k = "name p"
  have defs: "map snd (paramDefinitions td) @ positionalParamDefinitions td = ?defs"
    by (simp add: declaredParams_eq)
  from p have p: "p \<in> set ?defs" by (auto simp: declaredParams_eq)
  note res = resolve_Inr(1) [OF ok]
  note noerr = resolve_Inr(2) [OF ok]
  have get: "getProp res k = (if hasOwnProperty ?vals k then getProp ?vals k else getProp args k)" for k
    by (simp add: res getProp_objectSpread distinct_reduced)
  have has: "hasOwnProperty res k = (hasOwnProperty args k \<or> hasOwnProperty ?vals k)" for k
    by (simp add: res hasOwnProperty_objectSpread)
  from noerr p have "errorOf args p = None" by blast
  then obtain v where v: "resolveArgument p (readMember args ?k) = Inr v"
    by (cases "resolveArgument p (readMember args ?k)") (simp_all add: errorOf_def)
  have uniq: "q = p" if "distinct (map name ?defs)" "q \<in> set ?defs" "name q = ?k" for q
    using that p by (meson distinct_map inj_onD)
  show ?thesis
    unfolding defs
  proof (intro conjI impI)
    assume given: "readMember args ?k \<noteq> JUndefined"
    from resolveArgument_provided [OF given v]
    have vv: "v = readMember args ?k" and chk: "checkTypeValidation p (readMember args ?k) = None"
      by simp_all
    from v vv given p np have h: "hasOwnProperty ?vals ?k"
      by (auto simp: hasOwnProperty_reduced)
    then show "hasOwnProperty res ?k" by (simp add: has)
    from getProp_reduced [OF h] obtain q where
      q: "resolveArgument q (readMember args ?k) = Inr (getProp ?vals ?k)" by auto
    from resolveArgument_provided [OF given q] have "getProp ?vals ?k = readMember args ?k" by simp
    then show "getProp res ?k = readMember args ?k" by (simp add: get h)
    from chk show "checkTypeValidation p (readMember args ?k) = None" .
  next
    assume absent: "readMember args ?k = JUndefined"
    from readMember_undefined [OF absent] have own: "getProp args ?k = JUndefined" .
    from v absent resolveArgument_absent [of p v]
    have opt: "isOptional p" and vd: "v = defaultValue p" by simp_all
    from opt show "isOptional p" .
    {
      assume d: "defaultValue p \<noteq> JUndefined"
      with v vd p np have "hasOwnProperty ?vals ?k"
        by (auto simp: hasOwnProperty_reduced)
      then show "hasOwnProperty res ?k" by (simp add: has)
    }
    have some: "\<exists>q\<in>set ?defs. name q = ?k \<and> getProp res ?k = defaultValue q
                  \<and> (hasOwnProperty ?vals ?k \<longrightarrow> defaultValue q \<noteq> JUndefined)
                  \<and> (\<not> hasOwnProperty ?vals ?k \<longrightarrow> q = p \<and> defaultValue p = JUndefined)"
    proof (cases "hasOwnProperty ?vals ?k")
      case True
      from getProp_reduced [OF True] obtain q where
        q: "q \<in> set ?defs" "name q = ?k"
           "resolveArgument q (readMember args ?k) = Inr (getProp ?vals ?k)"
        and nz: "getProp ?vals ?k \<noteq> JUndefined" by auto
      from q(3) absent resolveArgument_absent [of q "getProp ?vals ?k"]
      have "getProp ?vals ?k = defaultValue q" by simp
      with q nz True show ?thesis by (auto simp: get)
    next
      case False
      with p v np have "v = JUndefined" by (auto simp: hasOwnProperty_reduced)
      with vd False own p show ?thesis by (auto simp: get)
    qed
    then show "\<exists>q\<in>set ?defs. name q = ?k \<and> getProp res ?k = defaultValue q" by blast
    {
      assume dist: "distinct (map name ?defs)"
      from some obtain q where q: "q \<in> set ?defs" "name q = ?k" "getProp res ?k = defaultValue q"
        "hasOwnProperty ?vals ?k \<longrightarrow> defaultValue q \<noteq> JUndefined" by blast
      from uniq [OF dist q(1) q(2)] have qp: "q = p" .
      with q show "getProp res ?k = defaultValue p" by simp
      {
        assume "defaultValue p = JUndefined"
        with q(4) qp have "\<not> hasOwnProperty ?vals ?k" by auto
        then show "hasOwnProperty res ?k = hasOwnProperty args ?k" by (simp add: has)
      }
    }
  next
    assume "hasOwnProperty args ?k"
    then show "readMember args ?k = getProp args ?k" by (rule readMember_own)
  next
    assume "\<not> hasOwnProperty args ?k \<and> ?k \<notin> set inheritedNames"
    then show "readMember args ?k = JUndefined" by (simp add: readMember_absent)
  qed
qed

theorem resolved_arguments_hold_value_or_default_witness:
  "resolveValidTaskArguments paymentTask [(''memo'', JStr ''rent''), (''to'', JStr ''bob'')]
     = Inr [(''memo'', JStr ''rent''), (''to'', JStr ''bob''), (''fee'', JNum 0)]
   \<and> paramFee \<in> snd ` set (paramDefinitions paymentTask)
   \<and> name paramFee \<noteq> ''__proto__''
   \<and> \<not> hasOwnProperty [(''memo'', JStr ''rent''), (''to'', JStr ''bob'')] (name paramFee)
   \<and> name paramFee \<notin> set inheritedNames
   \<and> readMember [(''memo'', JStr ''rent''), (''to'', JStr ''bob'')] (name paramFee) = JUndefined
   \<and> distinct (map name (map snd (paramDefinitions paymentTask)
                           @ positionalParamDefinitions paymentTask))
   \<and> isOptional paramFee
   \<and> hasOwnProperty [(''memo'', JStr ''rent''), (''to'', JStr ''bob''), (''fee'', JNum 0)]
        (name paramFee)
   \<and> getProp [(''memo'', JStr ''rent''), (''to'', JStr ''bob''), (''fee'', JNum 0)] (name paramFee)
       = defaultValue paramFee
   \<and> paramMemo \<in> set (positionalParamDefinitions paymentTask)
   \<and> name paramMemo \<noteq> ''__proto__''
   \<and> readMember [(''memo'', JStr ''rent''), (''to'', JStr ''bob'')] (name paramMemo)
       = JStr ''rent''
   \<and> hasOwnProperty [(''memo'', JStr ''rent''), (''to'', JStr ''bob''), (''fee'', JNum 0)]
        (name paramMemo)
   \<and> getProp [(''memo'', JStr ''rent''), (''to'', JStr ''bob''), (''fee'', JNum 0)]
        (name paramMemo) = JStr ''rent''
   \<and> checkTypeValidation paramMemo (JStr ''rent'') = None"
proof -
  let ?args = "[(''memo'', JStr ''rent''), (''to'', JStr ''bob'')]"
  let ?res = "[(''memo'', JStr ''rent''), (''to'', JStr ''bob''), (''fee'', JNum 0)]"
  have ok: "resolveValidTaskArguments paymentTask ?args = Inr ?res"
    by (simp add: resolve_eval declaredParams_def allTaskParamDefinitions_def Object_values_def
          paymentTask_def paramFee_def paramMemo_def intType_def)
  have m1: "paramFee \<in> snd ` set (paramDefinitions paymentTask)"
    by (simp add: paymentTask_def)
  have m2: "paramMemo \<in> set (positionalParamDefinitions paymentTask)"
    by (simp add: paymentTask_def)
  have n1: "name paramFee \<noteq> ''__proto__''" by (simp add: paramFee_def)
  have n2: "name paramMemo \<noteq> ''__proto__''" by (simp add: paramMemo_def)
  have own: "\<not> hasOwnProperty ?args (name paramFee)"
    by (simp add: hasOwnProperty_def paramFee_def)
  have plain: "name paramFee \<notin> set inheritedNames"
    by (simp add: paramFee_def inheritedNames_def Object_keys_def Object_prototype_def)
  have dist: "distinct (map name (map snd (paramDefinitions paymentTask)
                           @ positionalParamDefinitions paymentTask))"
    by (simp add: paymentTask_def paramFee_def paramMemo_def)
  have given: "readMember ?args (name paramMemo) = JStr ''rent''"
    by (simp add: readMember_def paramMemo_def)
  note named = resolved_arguments_hold_value_or_default [OF ok disjI1 [OF m1] n1]
  from named own plain have absent: "readMember ?args (name paramFee) = JUndefined"
    by blast
  from named absent dist
  have a: "isOptional paramFee \<and> hasOwnProperty ?res (name paramFee)
           \<and> getProp ?res (name paramFee) = defaultValue paramFee"
    by (simp add: paramFee_def)
  note positional = resolved_arguments_hold_value_or_default [OF ok disjI2 [OF m2] n2]
  from positional given
  have b: "hasOwnProperty ?res (name paramMemo) \<and> getProp ?res (name paramMemo) = JStr ''rent''
           \<and> checkTypeValidation paramMemo (JStr ''rent'') = None"
    by simp
  from ok m1 n1 own plain absent dist a m2 n2 given b show ?thesis by blast
qed

text \<open>
  As C1 is worded it fails: for an optional parameter with no default and no argument,
  resolution succeeds and the parameter is not a key of the result.
\<close>

theorem absent_optional_without_default_counterexample:
  "resolveValidTaskArguments labelTask [] = Inr []
   \<and> paramLabel \<in> set (positionalParamDefinitions labelTask)
   \<and> \<not> hasOwnProperty (projr (resolveValidTaskArguments labelTask [])) (name paramLabel)"
  by (simp add: resolve_eval declaredParams_def labelTask_def allTaskParamDefinitions_def
        Object_values_def example_params)

text \<open>
  A parameter named like a member every object inherits is read as provided although the
  raw arguments have no entry for it: the value read is the inherited member.
\<close>

lemma inherited_member_read_as_argument:
  "resolveValidTaskArguments constructorTask [] = Inr [(''constructor'', JOpaque ''Object'')]"
  by (simp add: resolve_eval declaredParams_def constructorTask_def paramConstructor_def
        allTaskParamDefinitions_def Object_values_def)

lemma first_error_raised:
  assumes "declaredParams td = front @ p # rest"
    and "\<forall>q\<in>set front. errorOf args q = None"
    and "errorOf args p = Some e"
  shows "resolveValidTaskArguments td args = Inl e"
    and "errors (resolvedArguments (paramDefinitions td) (positionalParamDefinitions td) args)
           = e # List.map_filter (errorOf args) rest"
proof -
  from assms have "List.map_filter (errorOf args) (declaredParams td)
                 = e # List.map_filter (errorOf args) rest"
    by (simp add: map_filter_append map_filter_all_None List.map_filter_simps)
  then show es: "errors (resolvedArguments (paramDefinitions td) (positionalParamDefinitions td) args)
                 = e # List.map_filter (errorOf args) rest"
    by (simp add: errors_resolvedArguments declaredParams_def)
  then show "resolveValidTaskArguments td args = Inl e"
    by (simp add: resolveValidTaskArguments_def Let_def)
qed

text \<open>
  C6. The errors raised while resolving the parameters are all collected, in the order
  the parameter definitions are processed. If the first parameter that fails raises
  \<open>e\<close>, resolution raises exactly \<open>e\<close>, and the parameters after it are still processed:
  their errors follow \<open>e\<close> in the collected list. If no parameter fails, resolution
  raises nothing and returns a mapping.
\<close>

theorem resolve_collects_all_raises_first:
  "errors (resolvedArguments (paramDefinitions td) (positionalParamDefinitions td) args)
     = List.map_filter (errorOf args) (declaredParams td)
   \<and> (\<forall>front p rest e.
         declaredParams td = front @ p # rest
         \<and> (\<forall>q\<in>set front. errorOf args q = None)
         \<and> errorOf args p = Some e
         \<longrightarrow> resolveValidTaskArguments td args = Inl e
             \<and> errors (resolvedArguments (paramDefinitions td) (positionalParamDefinitions td) args)
                 = e # List.map_filter (errorOf args) rest)
   \<and> ((\<forall>q\<in>set (declaredParams td). errorOf args q = None)
        \<longrightarrow> (\<exists>res. resolveValidTaskArguments td args = Inr res))"
proof (intro conjI allI impI)
  show all: "errors (resolvedArguments (paramDefinitions td) (positionalParamDefinitions td) args)
     = List.map_filter (errorOf args) (declaredParams td)"
    by (simp add: errors_resolvedArguments declaredParams_def)
  {
    fix front p rest e
    assume h: "declaredParams td = front @ p # rest
         \<and> (\<forall>q\<in>set front. errorOf args q = None)
         \<and> errorOf args p = Some e"
    then have "List.map_filter (errorOf args) (declaredParams td)
                 = e # List.map_filter (errorOf args) rest"
      by (simp add: map_filter_append map_filter_all_None List.map_filter_simps)
    with all have es: "errors (resolvedArguments (paramDefinitions td) (positionalParamDefinitions td) args)
                 = e # List.map_filter (errorOf args) rest"
      by simp
    then show "resolveValidTaskArguments td args = Inl e"
      by (simp add: resolveValidTaskArguments_def Let_def)
    from es show "errors (resolvedArguments (paramDefinitions td) (positionalParamDefinitions td) args)
                 = e # List.map_filter (errorOf args) rest" .
  }
  {
    assume "\<forall>q\<in>set (declaredParams td). errorOf args q = None"
    then have "List.map_filter (errorOf args) (declaredParams td) = []"
      by (rule map_filter_all_None)
    with all show "\<exists>res. resolveValidTaskArguments td args = Inr res"
      by (simp add: resolveValidTaskArguments_def Let_def)
  }
qed

theorem resolve_collects_all_raises_first_witness:
  "declaredParams transferTask = [paramAccount] @ paramAmount # [paramRecipient, paramMemo, paramLabel]
   \<and> errorOf [(''account'', JStr ''alice''), (''amount'', JStr ''five'')] paramAccount = None
   \<and> errorOf [(''account'', JStr ''alice''), (''amount'', JStr ''five'')] paramAmount
       = Some (TrestleError ARGUMENTS_INVALID_VALUE_FOR_TYPE [(''name'', ''amount''), (''type'', ''int'')])
   \<and> resolveValidTaskArguments transferTask [(''account'', JStr ''alice''), (''amount'', JStr ''five'')]
       = Inl (TrestleError ARGUMENTS_INVALID_VALUE_FOR_TYPE [(''name'', ''amount''), (''type'', ''int'')])
   \<and> errors (resolvedArguments (paramDefinitions transferTask)
               (positionalParamDefinitions transferTask)
               [(''account'', JStr ''alice''), (''amount'', JStr ''five'')])
       = [TrestleError ARGUMENTS_INVALID_VALUE_FOR_TYPE [(''name'', ''amount''), (''type'', ''int'')],
          TrestleError ARGUMENTS_MISSING_TASK_ARGUMENT [(''param'', ''recipient'')]]"
proof -
  let ?args = "[(''account'', JStr ''alice''), (''amount'', JStr ''five'')]"
  let ?e = "TrestleError ARGUMENTS_INVALID_VALUE_FOR_TYPE [(''name'', ''amount''), (''type'', ''int'')]"
  have d: "declaredParams transferTask
             = [paramAccount] @ paramAmount # [paramRecipient, paramMemo, paramLabel]"
    by (simp add: declaredParams_transferTask)
  have a: "errorOf ?args paramAccount = None"
    by (simp add: errorOf_def resolve_eval example_params)
  have b: "errorOf ?args paramAmount = Some ?e"
    by (simp add: errorOf_def resolve_eval example_params)
  have rest: "List.map_filter (errorOf ?args) [paramRecipient, paramMemo, paramLabel]
                = [TrestleError ARGUMENTS_MISSING_TASK_ARGUMENT [(''param'', ''recipient'')]]"
    by (simp add: List.map_filter_simps errorOf_def resolve_eval example_params)
  have prem: "declaredParams transferTask
                 = [paramAccount] @ paramAmount # [paramRecipient, paramMemo, paramLabel]
              \<and> (\<forall>q\<in>set [paramAccount]. errorOf ?args q = None)
              \<and> errorOf ?args paramAmount = Some ?e"
    using d a b by simp
  note raised = resolve_collects_all_raises_first
    [of transferTask ?args, THEN conjunct2, THEN conjunct1, rule_format, OF prem]
  then have "resolveValidTaskArguments transferTask ?args = Inl ?e
        \<and> errors (resolvedArguments (paramDefinitions transferTask)
               (positionalParamDefinitions transferTask) ?args)
            = ?e # List.map_filter (errorOf ?args) [paramRecipient, paramMemo, paramLabel]"
    by simp
  with d a b rest show ?thesis by simp
qed

text \<open>
  C7 (as amended). For a parameter definition that is not optional, resolving an absent
  value fails with \<open>MISSING_TASK_ARGUMENT\<close> naming the parameter. When a task declares the
  parameter, as a named or a positional one, and the value read under its name in the raw
  arguments is \<open>undefined\<close>, that error is collected and the resolution of the task's
  arguments fails; it fails with exactly that error when no parameter processed before
  this one fails. The value read is \<open>undefined\<close> when the raw arguments have no entry of
  the name and the name is not one every object inherits a member under.
\<close>

theorem missing_required_argument:
  assumes req: "\<not> isOptional p"
  shows "resolveArgument p JUndefined
           = Inl (TrestleError ARGUMENTS_MISSING_TASK_ARGUMENT [(''param'', name p)])
       \<and> ((p \<in> snd ` set (paramDefinitions td) \<or> p \<in> set (positionalParamDefinitions td))
            \<and> readMember args (name p) = JUndefined \<longrightarrow>
              errorOf args p
                = Some (TrestleError ARGUMENTS_MISSING_TASK_ARGUMENT [(''param'', name p)])
            \<and> TrestleError ARGUMENTS_MISSING_TASK_ARGUMENT [(''param'', name p)]
                \<in> set (errors (resolvedArguments (paramDefinitions td)
                                  (positionalParamDefinitions td) args))
            \<and> (\<exists>e. resolveValidTaskArguments td args = Inl e)
            \<and> (\<forall>front rest.
                  map snd (paramDefinitions td) @ positionalParamDefinitions td = front @ p # rest
                  \<and> (\<forall>q\<in>set front. errorOf args q = None)
                  \<longrightarrow> resolveValidTaskArguments td args
                        = Inl (TrestleError ARGUMENTS_MISSING_TASK_ARGUMENT [(''param'', name p)])))
       \<and> (\<not> hasOwnProperty args (name p) \<and> name p \<notin> set inheritedNames \<longrightarrow>
            readMember args (name p) = JUndefined)"
proof (intro conjI impI allI)
  let ?e = "TrestleError ARGUMENTS_MISSING_TASK_ARGUMENT [(''param'', name p)]"
  from req show r: "resolveArgument p JUndefined = Inl ?e"
    by (simp add: resolveArgument_def)
  {
    assume h: "(p \<in> snd ` set (paramDefinitions td) \<or> p \<in> set (positionalParamDefinitions td))
            \<and> readMember args (name p) = JUndefined"
    then have mem: "p \<in> set (declaredParams td)" by (auto simp: declaredParams_eq)
    from h r show eo: "errorOf args p = Some ?e"
      by (simp add: errorOf_def)
    have es: "errors (resolvedArguments (paramDefinitions td) (positionalParamDefinitions td) args)
        = List.map_filter (errorOf args) (declaredParams td)"
      by (simp add: errors_resolvedArguments declaredParams_def)
    from mem eo have in_list: "?e \<in> set (List.map_filter (errorOf args) (declaredParams td))"
      by (force simp: List.map_filter_def)
    with es show "?e \<in> set (errors (resolvedArguments (paramDefinitions td)
                              (positionalParamDefinitions td) args))" by simp
    from in_list es show "\<exists>e. resolveValidTaskArguments td args = Inl e"
      by (cases "List.map_filter (errorOf args) (declaredParams td)")
         (auto simp: resolveValidTaskArguments_def Let_def)
    fix front rest
    assume f: "map snd (paramDefinitions td) @ positionalParamDefinitions td = front @ p # rest
                  \<and> (\<forall>q\<in>set front. errorOf args q = None)"
    then have d: "declaredParams td = front @ p # rest"
      and ok: "\<forall>q\<in>set front. errorOf args q = None"
      by (simp_all add: declaredParams_eq)
    from first_error_raised(1) [OF d ok eo]
    show "resolveValidTaskArguments td args = Inl ?e" .
  }
  assume "\<not> hasOwnProperty args (name p) \<and> name p \<notin> set inheritedNames"
  then show "readMember args (name p) = JUndefined" by (simp add: readMember_absent)
qed

theorem missing_required_argument_witness:
  "\<not> isOptional paramAccount
   \<and> paramAccount \<in> snd ` set (paramDefinitions transferTask)
   \<and> readMember [] (name paramAccount) = JUndefined
   \<and> resolveValidTaskArguments transferTask []
       = Inl (TrestleError ARGUMENTS_MISSING_TASK_ARGUMENT [(''param'', ''account'')])
   \<and> \<not> isOptional paramRecipient
   \<and> paramRecipient \<in> set (positionalParamDefinitions transferTask)
   \<and> readMember [(''account'', JStr ''alice''), (''amount'', JNum 5)] (name paramRecipient)
       = JUndefined
   \<and> map snd (paramDefinitions transferTask) @ positionalParamDefinitions transferTask
       = [paramAccount, paramAmount] @ paramRecipient # [paramMemo, paramLabel]
   \<and> errorOf [(''account'', JStr ''alice''), (''amount'', JNum 5)] paramAccount = None
   \<and> errorOf [(''account'', JStr ''alice''), (''amount'', JNum 5)] paramAmount = None
   \<and> resolveArgument paramRecipient JUndefined
       = Inl (TrestleError ARGUMENTS_MISSING_TASK_ARGUMENT [(''param'', ''recipient'')])
   \<and> resolveValidTaskArguments transferTask [(''account'', JStr ''alice''), (''amount'', JNum 5)]
       = Inl (TrestleError ARGUMENTS_MISSING_TASK_ARGUMENT [(''param'', ''recipient'')])"
proof -
  let ?args = "[(''account'', JStr ''alice''), (''amount'', JNum 5)]"
  have req1: "\<not> isOptional paramAccount" by (simp add: paramAccount_def)
  have req2: "\<not> isOptional paramRecipient" by (simp add: paramRecipient_def)
  have m1: "paramAccount \<in> snd ` set (paramDefinitions transferTask)"
    by (simp add: transferTask_def)
  have m2: "paramRecipient \<in> set (positionalParamDefinitions transferTask)"
    by (simp add: transferTask_def)
  have a1: "readMember [] (name paramAccount) = JUndefined"
    by (simp add: readMember_def paramAccount_def Object_prototype_def getProp_def)
  have a2: "readMember ?args (name paramRecipient) = JUndefined"
    by (simp add: readMember_def paramRecipient_def Object_prototype_def getProp_def)
  have order1: "map snd (paramDefinitions transferTask) @ positionalParamDefinitions transferTask
       = [] @ paramAccount # [paramAmount, paramRecipient, paramMemo, paramLabel]"
    by (simp add: transferTask_def)
  have order2: "map snd (paramDefinitions transferTask) @ positionalParamDefinitions transferTask
       = [paramAccount, paramAmount] @ paramRecipient # [paramMemo, paramLabel]"
    by (simp add: transferTask_def)
  have e1: "errorOf ?args paramAccount = None"
    by (simp add: errorOf_def resolve_eval example_params)
  have e2: "errorOf ?args paramAmount = None"
    by (simp add: errorOf_def resolve_eval example_params)
  note first = missing_required_argument
    [OF req1, of transferTask "[]", THEN conjunct2, THEN conjunct1, rule_format,
     OF conjI [OF disjI1 [OF m1] a1]]
  have p1: "map snd (paramDefinitions transferTask) @ positionalParamDefinitions transferTask
              = [] @ paramAccount # [paramAmount, paramRecipient, paramMemo, paramLabel]
            \<and> (\<forall>q\<in>set []. errorOf [] q = None)"
    using order1 by simp
  from first [THEN conjunct2, THEN conjunct2, THEN conjunct2, rule_format, OF p1]
  have r1: "resolveValidTaskArguments transferTask []
       = Inl (TrestleError ARGUMENTS_MISSING_TASK_ARGUMENT [(''param'', ''account'')])"
    by (simp add: paramAccount_def)
  note third = missing_required_argument
    [OF req2, of transferTask ?args, THEN conjunct2, THEN conjunct1, rule_format,
     OF conjI [OF disjI2 [OF m2] a2]]
  have p2: "map snd (paramDefinitions transferTask) @ positionalParamDefinitions transferTask
              = [paramAccount, paramAmount] @ paramRecipient # [paramMemo, paramLabel]
            \<and> (\<forall>q\<in>set [paramAccount, paramAmount]. errorOf ?args q = None)"
    using order2 e1 e2 by simp
  from third [THEN conjunct2, THEN conjunct2, THEN conjunct2, rule_format, OF p2]
  have r2: "resolveValidTaskArguments transferTask ?args
       = Inl (TrestleError ARGUMENTS_MISSING_TASK_ARGUMENT [(''param'', ''recipient'')])"
    by (simp add: paramRecipient_def)
  from missing_required_argument [OF req2, of transferTask ?args, THEN conjunct1]
  have r3: "resolveArgument paramRecipient JUndefined
       = Inl (TrestleError ARGUMENTS_MISSING_TASK_ARGUMENT [(''param'', ''recipient'')])"
    by (simp add: paramRecipient_def)
  from req1 m1 a1 r1 req2 m2 a2 order2 e1 e2 r3 r2 show ?thesis by blast
qed

text \<open>
  As C7 is worded, for the resolution of a raw argument mapping, it fails: with
  \<open>recipient\<close> required and absent and \<open>amount\<close> of the wrong type, the resolution fails
  with the error of \<open>amount\<close>, the first to fail, which does not name \<open>recipient\<close>.
\<close>

theorem earlier_error_raised_instead_counterexample:
  "\<not> isOptional paramRecipient
   \<and> paramRecipient \<in> set (positionalParamDefinitions transferTask)
   \<and> \<not> hasOwnProperty [(''account'', JStr ''alice''), (''amount'', JStr ''five'')]
         (name paramRecipient)
   \<and> resolveValidTaskArguments transferTask
        [(''account'', JStr ''alice''), (''amount'', JStr ''five'')]
       = Inl (TrestleError ARGUMENTS_INVALID_VALUE_FOR_TYPE
                [(''name'', ''amount''), (''type'', ''int'')])"
proof -
  have a: "\<not> isOptional paramRecipient" by (simp add: paramRecipient_def)
  have b: "paramRecipient \<in> set (positionalParamDefinitions transferTask)"
    by (simp add: transferTask_def)
  have c: "\<not> hasOwnProperty [(''account'', JStr ''alice''), (''amount'', JStr ''five'')]
         (name paramRecipient)"
    by (simp add: hasOwnProperty_def paramRecipient_def)
  have d: "resolveValidTaskArguments transferTask
        [(''account'', JStr ''alice''), (''amount'', JStr ''five'')]
       = Inl (TrestleError ARGUMENTS_INVALID_VALUE_FOR_TYPE
                [(''name'', ''amount''), (''type'', ''int'')])"
    by (simp add: resolve_eval declaredParams_transferTask example_params)
  from a b c d show ?thesis by blast
qed

subsection \<open>Publishing and restoring\<close>

declare runTaskDefinition.simps [simp del]

lemma readMember_literal: "k \<notin> set inheritedNames \<Longrightarrow> readMember obj k = getProp obj k"
  by (cases "hasOwnProperty obj k") (simp_all add: readMember_own readMember_absent getProp_absent)

lemma runSuper_not_inherited: "''runSuper'' \<notin> set inheritedNames"
  by (simp add: inheritedNames_def Object_keys_def Object_prototype_def)

lemma injectLoop_fold:
  "distinct (map fst entries) \<Longrightarrow> ''__proto__'' \<notin> fst ` set entries \<Longrightarrow>
   foldl (\<lambda>(previousValues, g) (key, v).
              if key \<in> set blacklist then (previousValues, g)
              else (assign key (readMember g key) previousValues, assign key v g))
       (prev0, g0) entries = (prev, g) \<Longrightarrow>
   readMember prev k = (if k \<in> fst ` set entries \<and> k \<notin> set blacklist then readMember g0 k
                        else readMember prev0 k)
   \<and> readMember g k = (if k \<in> fst ` set entries \<and> k \<notin> set blacklist then getProp entries k
                        else readMember g0 k)
   \<and> hasOwnProperty g k = (hasOwnProperty g0 k \<or> (k \<in> fst ` set entries \<and> k \<notin> set blacklist))"
proof (induction entries arbitrary: prev0 g0)
  case Nil
  then show ?case by simp
next
  case (Cons x entries)
  obtain k' v' where x: "x = (k', v')" by (cases x)
  from Cons.prems(1) have d: "distinct (map fst entries)" and nk: "k' \<notin> fst ` set entries"
    by (auto simp: x)
  from Cons.prems(2) have np: "''__proto__'' \<notin> fst ` set entries" and kp: "k' \<noteq> ''__proto__''"
    by (auto simp: x)
  show ?case
  proof (cases "k' \<in> set blacklist")
    case True
    with Cons.prems(3) have
      "foldl (\<lambda>(previousValues, g) (key, v).
              if key \<in> set blacklist then (previousValues, g)
              else (assign key (readMember g key) previousValues, assign key v g))
         (prev0, g0) entries = (prev, g)"
      by (simp add: x)
    from Cons.IH [OF d np this] True nk show ?thesis
      by (auto simp: x getProp_Cons)
  next
    case False
    with Cons.prems(3) kp have
      "foldl (\<lambda>(previousValues, g) (key, v).
              if key \<in> set blacklist then (previousValues, g)
              else (assign key (readMember g key) previousValues, assign key v g))
         (setProp k' (readMember g0 k') prev0, setProp k' v' g0) entries = (prev, g)"
      by (simp add: x assign_setProp)
    from Cons.IH [OF d np this] False nk show ?thesis
      by (auto simp: x getProp_Cons readMember_setProp hasOwnProperty_setProp)
  qed
qed

lemma injectLoop_get:
  assumes "distinct (map fst entries)" and "''__proto__'' \<notin> fst ` set entries"
    and "injectLoop blacklist entries g0 = (prev, g)"
  shows "readMember prev k = (if k \<in> fst ` set entries \<and> k \<notin> set blacklist then readMember g0 k
                              else readMember [] k)"
    and "readMember g k = (if k \<in> fst ` set entries \<and> k \<notin> set blacklist then getProp entries k
                           else readMember g0 k)"
    and "hasOwnProperty g k = (hasOwnProperty g0 k \<or> (k \<in> fst ` set entries \<and> k \<notin> set blacklist))"
  using injectLoop_fold [OF assms(1) assms(2) assms(3) [unfolded injectLoop_def], of k]
  by simp_all

lemma restoreLoop_get:
  "''__proto__'' \<notin> fst ` set entries \<Longrightarrow>
   readMember (restoreLoop blacklist prev entries g) k =
     (if k \<in> fst ` set entries \<and> k \<notin> set blacklist then readMember prev k else readMember g k)"
  unfolding restoreLoop_def
proof (induction entries arbitrary: g)
  case Nil
  then show ?case by simp
next
  case (Cons x entries)
  obtain k' v' where x: "x = (k', v')" by (cases x)
  from Cons.prems have np: "''__proto__'' \<notin> fst ` set entries" and kp: "k' \<noteq> ''__proto__''"
    by (auto simp: x)
  show ?case
    by (auto simp: x Cons.IH [OF np] assign_setProp [OF kp] readMember_setProp)
qed

lemma restoreLoop_has:
  "''__proto__'' \<notin> fst ` set entries \<Longrightarrow>
   hasOwnProperty (restoreLoop blacklist prev entries g) k =
     (hasOwnProperty g k \<or> (k \<in> fst ` set entries \<and> k \<notin> set blacklist))"
  unfolding restoreLoop_def
proof (induction entries arbitrary: g)
  case Nil
  then show ?case by simp
next
  case (Cons x entries)
  obtain k' v' where x: "x = (k', v')" by (cases x)
  from Cons.prems have np: "''__proto__'' \<notin> fst ` set entries" and kp: "k' \<noteq> ''__proto__''"
    by (auto simp: x)
  show ?case
    by (auto simp: x Cons.IH [OF np] assign_setProp [OF kp] hasOwnProperty_setProp)
qed

lemma set_injectedKeys:
  "set (injectedKeys w) = {k. k \<in> fst ` set (this w) \<and> k \<notin> set BLACKLISTED_PROPERTIES}"
  by (auto simp: injectedKeys_def Object_keys_def)

lemma published_this: "this (snd (published rs w)) = this w"
  by (simp add: published_def injectToGlobal_def Let_def split: prod.splits)

lemma runTaskDefinition_fst:
  "fst (runTaskDefinition td args w) = fst (actionRun td args w)"
  by (simp add: runTaskDefinition.simps runAction_def actionRun_def Let_def split: prod.splits)

lemma runTaskDefinition_this:
  "this (snd (runTaskDefinition td args w)) = this (snd (actionRun td args w))"
  by (simp add: runTaskDefinition.simps runAction_def actionRun_def published_def
        injectToGlobal_def Let_def split: prod.splits)

lemma published_global:
  assumes "distinct (Object_keys (this w))" and "''__proto__'' \<notin> set (Object_keys (this w))"
  shows "readMember (global (snd (published rs w))) k =
           (if k \<in> set (injectedKeys w) then getProp (this w) k
            else if k = ''runSuper'' then runSuperValue rs
            else readMember (global w) k)"
proof -
  obtain prev g where ig:
    "injectLoop BLACKLISTED_PROPERTIES (this w)
       (setProp ''runSuper'' (runSuperValue rs) (global w)) = (prev, g)"
    by (cases "injectLoop BLACKLISTED_PROPERTIES (this w)
       (setProp ''runSuper'' (runSuperValue rs) (global w))")
  from assms have d: "distinct (map fst (this w))" and np: "''__proto__'' \<notin> fst ` set (this w)"
    by (simp_all add: Object_keys_def)
  have "global (snd (published rs w)) = g"
    by (simp add: published_def injectToGlobal_def Let_def ig)
  then show ?thesis
    using injectLoop_get(2) [OF d np ig, of k]
    by (simp add: set_injectedKeys readMember_setProp)
qed

lemma runTaskDefinition_global:
  assumes "distinct (Object_keys (this w))" and "''__proto__'' \<notin> set (Object_keys (this w))"
    and "''__proto__'' \<notin> set (Object_keys (this (snd (actionRun td args w))))"
  shows "readMember (global (snd (runTaskDefinition td args w))) k =
           (if k = ''runSuper'' then readMember (global w) ''runSuper''
            else if k \<in> set (injectedKeys (snd (actionRun td args w))) then
              (if k \<in> set (injectedKeys w) then readMember (global w) k else readMember [] k)
            else readMember (global (snd (actionRun td args w))) k)"
proof -
  let ?rs = "runSuperFunction td args"
  obtain prev g where ig:
    "injectLoop BLACKLISTED_PROPERTIES (this w)
       (setProp ''runSuper'' (runSuperValue ?rs) (global w)) = (prev, g)"
    by (cases "injectLoop BLACKLISTED_PROPERTIES (this w)
       (setProp ''runSuper'' (runSuperValue ?rs) (global w))")
  from assms have d: "distinct (map fst (this w))" and np: "''__proto__'' \<notin> fst ` set (this w)"
    by (simp_all add: Object_keys_def)
  obtain outcome w2 where ar: "actionRun td args w = (outcome, w2)"
    by (cases "actionRun td args w")
  from assms(3) ar have np2: "''__proto__'' \<notin> fst ` set (this w2)"
    by (simp add: Object_keys_def)
  have pub: "published ?rs w =
      (\<lambda>w'. w'\<lparr>global := restoreLoop BLACKLISTED_PROPERTIES prev (this w') (global w')\<rparr>,
       w\<lparr>global := g\<rparr>)"
    by (simp add: published_def injectToGlobal_def Let_def ig)
  from ar have act: "action td args ?rs (w\<lparr>global := g\<rparr>) = (outcome, w2)"
    by (simp add: actionRun_def pub)
  have fin: "global (snd (runTaskDefinition td args w)) =
      setProp ''runSuper'' (getProp (global w) ''runSuper'')
        (restoreLoop BLACKLISTED_PROPERTIES prev (this w2) (global w2))"
    by (simp add: runTaskDefinition.simps runAction_def Let_def pub act)
  show ?thesis
    using injectLoop_get(1) [OF d np ig, of k]
    by (auto simp: fin ar readMember_setProp restoreLoop_get [OF np2] set_injectedKeys
          readMember_literal [OF runSuper_not_inherited])
qed

lemma runTaskDefinition_has:
  assumes "''__proto__'' \<notin> set (Object_keys (this (snd (actionRun td args w))))"
  shows "hasOwnProperty (global (snd (runTaskDefinition td args w))) k =
     (k = ''runSuper'' \<or> k \<in> set (injectedKeys (snd (actionRun td args w)))
      \<or> hasOwnProperty (global (snd (actionRun td args w))) k)"
proof -
  let ?rs = "runSuperFunction td args"
  obtain prev g where ig:
    "injectLoop BLACKLISTED_PROPERTIES (this w)
       (setProp ''runSuper'' (runSuperValue ?rs) (global w)) = (prev, g)"
    by (cases "injectLoop BLACKLISTED_PROPERTIES (this w)
       (setProp ''runSuper'' (runSuperValue ?rs) (global w))")
  obtain outcome w2 where ar: "actionRun td args w = (outcome, w2)"
    by (cases "actionRun td args w")
  from assms ar have np2: "''__proto__'' \<notin> fst ` set (this w2)"
    by (simp add: Object_keys_def)
  have pub: "published ?rs w =
      (\<lambda>w'. w'\<lparr>global := restoreLoop BLACKLISTED_PROPERTIES prev (this w') (global w')\<rparr>,
       w\<lparr>global := g\<rparr>)"
    by (simp add: published_def injectToGlobal_def Let_def ig)
  from ar have act: "action td args ?rs (w\<lparr>global := g\<rparr>) = (outcome, w2)"
    by (simp add: actionRun_def pub)
  have fin: "global (snd (runTaskDefinition td args w)) =
      setProp ''runSuper'' (getProp (global w) ''runSuper'')
        (restoreLoop BLACKLISTED_PROPERTIES prev (this w2) (global w2))"
    by (simp add: runTaskDefinition.simps runAction_def Let_def pub act)
  show ?thesis
    by (auto simp: fin ar hasOwnProperty_setProp restoreLoop_has [OF np2] set_injectedKeys)
qed

lemmas run_eval =
  runTaskDefinition.simps runSuperFunction.simps runAction_def actionRun_def published_def
  injectToGlobal_def injectLoop_def restoreLoop_def injectedKeys_def Object_keys_def
  BLACKLISTED_PROPERTIES_def runSuperValue_def readMember_def assign_def Object_prototype_def
  getProp_def setProp_def hasOwnProperty_def Let_def

lemmas delegation_eval =
  run_eval originalTask_def middleTask_def outermostTask_def delegating_def logCall_def

text \<open>
  What the restore does when the action leaves the set of the environment's property
  names as it was at injection (the names distinct and none of them \<open>__proto__\<close>): the
  outcome of the execution is the action's outcome, a success or a failure alike; while
  the action runs, the global object holds the environment's value under every injected
  name; and after the \<open>finally\<close> block every injected name and \<open>runSuper\<close> read in the
  global object as they did before the injection, every other name is as the action left
  it, and an injected name the global object did not have before is a property of it.
\<close>

lemma restore_with_unchanged_keys:
  assumes wf: "distinct (Object_keys (this w))"
    and np: "''__proto__'' \<notin> set (Object_keys (this w))"
    and stable: "set (Object_keys (this (snd (actionRun td args w)))) = set (Object_keys (this w))"
  shows "fst (runTaskDefinition td args w) = fst (actionRun td args w)
       \<and> (\<forall>key. readMember (global (snd (published (runSuperFunction td args) w))) key =
            (if key \<in> set (injectedKeys w) then getProp (this w) key
             else if key = ''runSuper'' then runSuperValue (runSuperFunction td args)
             else readMember (global w) key))
       \<and> (\<forall>key. readMember (global (snd (runTaskDefinition td args w))) key =
            (if key = ''runSuper'' \<or> key \<in> set (injectedKeys w) then readMember (global w) key
             else readMember (global (snd (actionRun td args w))) key))
       \<and> (\<forall>key. key \<in> set (injectedKeys w) \<longrightarrow>
            hasOwnProperty (global (snd (runTaskDefinition td args w))) key)"
proof -
  from stable have same: "set (injectedKeys (snd (actionRun td args w))) = set (injectedKeys w)"
    by (simp add: injectedKeys_def)
  from stable np have np2: "''__proto__'' \<notin> set (Object_keys (this (snd (actionRun td args w))))"
    by simp
  have g: "readMember (global (snd (runTaskDefinition td args w))) key =
            (if key = ''runSuper'' \<or> key \<in> set (injectedKeys w) then readMember (global w) key
             else readMember (global (snd (actionRun td args w))) key)" for key
    by (simp add: runTaskDefinition_global [OF wf np np2] same)
  have h: "hasOwnProperty (global (snd (runTaskDefinition td args w))) key"
    if "key \<in> set (injectedKeys w)" for key
    using that by (simp add: runTaskDefinition_has [OF np2] same)
  show ?thesis
    using g h by (simp add: runTaskDefinition_fst published_global [OF wf np])
qed

text \<open>
  C2. The code departs from the claim when the action changes the environment's set of
  property names: the restore loop runs over the properties the environment has when it
  is called, not over the names it recorded. After an action that adds the property \<open>foo\<close>
  to the environment, the restore has overwritten the global \<open>foo\<close>, which was never
  injected, with \<open>undefined\<close>; after an action that removes the property \<open>network\<close>, the
  injected \<open>network\<close> is still in the global object.
\<close>

theorem restore_follows_changed_keys:
  "''foo'' \<notin> set (injectedKeys smallWorld)
   \<and> getProp (global smallWorld) ''foo'' = JNum 5
   \<and> getProp (global (snd (runTaskDefinition addingTask [] smallWorld))) ''foo'' = JUndefined
   \<and> ''network'' \<in> set (injectedKeys smallWorld)
   \<and> getProp (global smallWorld) ''network'' = JUndefined
   \<and> getProp (global (snd (runTaskDefinition removingTask [] smallWorld))) ''network''
       = JObj [(''name'', JStr ''testnet'')]"
  by (simp add: run_eval smallWorld_def addingTask_def addingAction_def removingTask_def
        removingAction_def)

text \<open>
  C3. For a task overridden twice, calling \<open>runSuper\<close> from the outermost override runs
  the execution routine on the middle override, which calls the middle override's action;
  calling \<open>runSuper\<close> from there runs it on the original definition, which calls the
  original action. A call of \<open>runSuper\<close> without arguments passes on the arguments the
  current definition's action received, a call with arguments passes those.
\<close>

theorem runSuper_delegates_in_reverse_order:
  "invoke (runSuperFunction
             (OverriddenTaskDefinition (OverriddenTaskDefinition original n1 pds1 ppds1 a1)
                n2 pds2 ppds2 a2) args) given w
     = runTaskDefinition (OverriddenTaskDefinition original n1 pds1 ppds1 a1)
         (case given of None \<Rightarrow> args | Some other \<Rightarrow> other) w
   \<and> fst (runTaskDefinition (OverriddenTaskDefinition original n1 pds1 ppds1 a1) args1 w1)
       = fst (a1 args1 (runSuperFunction (OverriddenTaskDefinition original n1 pds1 ppds1 a1) args1)
                (snd (published
                        (runSuperFunction (OverriddenTaskDefinition original n1 pds1 ppds1 a1) args1)
                        w1)))
   \<and> invoke (runSuperFunction (OverriddenTaskDefinition original n1 pds1 ppds1 a1) args1) given1 w2
       = runTaskDefinition original (case given1 of None \<Rightarrow> args1 | Some other \<Rightarrow> other) w2
   \<and> fst (runTaskDefinition original args0 w0)
       = fst (action original args0 (runSuperFunction original args0)
                (snd (published (runSuperFunction original args0) w0)))"
  by (simp add: runTaskDefinition_fst actionRun_def)

theorem runSuper_delegates_in_reverse_order_witness:
  "invoke (runSuperFunction outermostTask [(''x'', JNum 1)]) None \<lparr>global = [], this = []\<rparr>
     = runTaskDefinition middleTask [(''x'', JNum 1)] \<lparr>global = [], this = []\<rparr>
   \<and> fst (runTaskDefinition outermostTask [(''x'', JNum 1)] \<lparr>global = [], this = []\<rparr>)
       = Inr (JStr ''original'')
   \<and> getProp (global (snd (runTaskDefinition outermostTask [(''x'', JNum 1)]
                              \<lparr>global = [], this = []\<rparr>))) ''log''
       = JArr [JObj [(''action'', JStr ''outermost''), (''args'', JObj [(''x'', JNum 1)])],
               JObj [(''action'', JStr ''middle''), (''args'', JObj [(''x'', JNum 1)])],
               JObj [(''action'', JStr ''original''), (''args'', JObj [(''x'', JNum 1)])]]"
proof -
  let ?w = "\<lparr>global = [], this = []\<rparr>"
  let ?args = "[(''x'', JNum 1)]"
  from runSuper_delegates_in_reverse_order
         [of originalTask "''build''" "[]" "[]" "delegating ''middle''"
             "''build''" "[]" "[]" "delegating ''outermost''" ?args None ?w]
  have a: "invoke (runSuperFunction outermostTask ?args) None ?w
             = runTaskDefinition middleTask ?args ?w"
    by (simp add: outermostTask_def middleTask_def)
  have b: "fst (runTaskDefinition outermostTask ?args ?w) = Inr (JStr ''original'')"
    by (simp add: delegation_eval)
  have c: "getProp (global (snd (runTaskDefinition outermostTask ?args ?w))) ''log''
       = JArr [JObj [(''action'', JStr ''outermost''), (''args'', JObj [(''x'', JNum 1)])],
               JObj [(''action'', JStr ''middle''), (''args'', JObj [(''x'', JNum 1)])],
               JObj [(''action'', JStr ''original''), (''args'', JObj [(''x'', JNum 1)])]]"
    by (simp add: delegation_eval)
  from a b c show ?thesis by blast
qed

text \<open>
  C8. For a base (not overridden) task definition, the \<open>runSuper\<close> handed to its action has
  the marker \<open>isDefined = false\<close>, and calling it, with or without arguments and in any
  state, fails with \<open>RUNSUPER_NOT_AVAILABLE\<close> naming the task and changes nothing. For an
  overridden task definition the marker is \<open>true\<close>.
\<close>

theorem runSuper_of_base_task_not_available:
  "isDefined (runSuperFunction (SimpleTaskDefinition n pds ppds a) args) = False
   \<and> invoke (runSuperFunction (SimpleTaskDefinition n pds ppds a) args) given w
       = (Inl (TrestleError TASK_DEFINITIONS_RUNSUPER_NOT_AVAILABLE [(''taskName'', n)]), w)
   \<and> fst (runTaskDefinition (SimpleTaskDefinition n pds ppds a) args w)
       = fst (a args (runSuperFunction (SimpleTaskDefinition n pds ppds a) args)
                (snd (published (runSuperFunction (SimpleTaskDefinition n pds ppds a) args) w)))
   \<and> isDefined (runSuperFunction (OverriddenTaskDefinition parent n' pds' ppds' a') args') = True"
  by (simp add: runTaskDefinition_fst actionRun_def)

theorem runSuper_of_base_task_not_available_witness:
  "isDefined (runSuperFunction originalTask []) = False
   \<and> invoke (runSuperFunction originalTask []) None smallWorld
       = (Inl (TrestleError TASK_DEFINITIONS_RUNSUPER_NOT_AVAILABLE [(''taskName'', ''build'')]),
          smallWorld)
   \<and> invoke (runSuperFunction originalTask []) (Some [(''x'', JNum 1)]) smallWorld
       = (Inl (TrestleError TASK_DEFINITIONS_RUNSUPER_NOT_AVAILABLE [(''taskName'', ''build'')]),
          smallWorld)
   \<and> isDefined (runSuperFunction middleTask []) = True"
  using runSuper_of_base_task_not_available
          [of "''build''" "[]" "[]" "delegating ''original''" "[]" None smallWorld]
        runSuper_of_base_task_not_available
          [of "''build''" "[]" "[]" "delegating ''original''" "[]" "Some [(''x'', JNum 1)]"
              smallWorld originalTask "''build''" "[]" "[]" "delegating ''middle''" "[]"]
  by (simp add: originalTask_def middleTask_def)

subsection \<open>The constructor\<close>

lemma forEachExtender_all_return:
  "(\<forall>extender\<in>set extenders. \<forall>env. \<exists>env'. extender env = Inr env') \<Longrightarrow>
   forEachExtender extenders env = Inr (foldl (\<lambda>e extender. projr (extender e)) env extenders)"
proof (induction extenders arbitrary: env)
  case Nil
  then show ?case by simp
next
  case (Cons extender rest)
  from Cons.prems obtain env' where e: "extender env = Inr env'" by auto
  from Cons.prems have "\<forall>x\<in>set rest. \<forall>env. \<exists>env'. x env = Inr env'" by simp
  from Cons.IH [OF this] e show ?case by simp
qed

lemma forEachExtender_error:
  "forEachExtender extenders env = Inl e \<Longrightarrow> \<exists>extender\<in>set extenders. \<exists>env'. extender env' = Inl e"
proof (induction extenders arbitrary: env)
  case Nil
  then show ?case by simp
next
  case (Cons extender rest)
  then show ?case by (cases "extender env") auto
qed

lemma forEachExtender_append_throw:
  "forEachExtender front env = Inr env' \<Longrightarrow> extender env' = Inl e \<Longrightarrow>
   forEachExtender (front @ extender # rest) env = Inl e"
proof (induction front arbitrary: env)
  case Nil
  then show ?case by simp
next
  case (Cons x front)
  then show ?case by (cases "x env") auto
qed

lemma forEachExtender_first_throw:
  assumes "\<forall>x\<in>set front. \<forall>env. \<exists>env'. x env = Inr env'"
    and "extender (foldl (\<lambda>env x. projr (x env)) env0 front) = Inl e"
  shows "forEachExtender (front @ extender # rest) env0 = Inl e"
proof -
  have "forEachExtender front env0 = Inr (foldl (\<lambda>env x. projr (x env)) env0 front)"
    by (rule forEachExtender_all_return [OF assms(1)])
  from this assms(2) show ?thesis by (rule forEachExtender_append_throw)
qed

lemmas constructor_eval =
  Environment_constructor_def constructed_def testnetConfig_def mainnetArgs_def
  recordingExtender_def throwingExtender_def readMember_def Object_prototype_def
  getProp_def setProp_def hasOwnProperty_def

text \<open>
  C10 (as amended). For a resolved configuration (its \<open>networks\<close> is an object), the
  constructor called with \<open>networkRequired = false\<close> never fails in its own network check:
  its outcome is that of invoking the extenders, in list order, on the constructed
  environment, whose \<open>network\<close> field is \<open>{name: runtimeArgs.network, config}\<close> with the
  value read under the selected name in \<open>networks\<close>: \<open>undefined\<close> when \<open>networks\<close> has no
  entry of the name and the name is not one every object inherits a member under. When no
  extender throws, construction completes with every extender applied in list order; when
  the extenders before one return and that one throws, construction fails with its error,
  whatever extenders follow it; and a failure is always an error an extender threw. With
  \<open>networkRequired = true\<close>, the constructor fails with \<open>NETWORK_CONFIG_NOT_FOUND\<close> naming
  the network when the value read is falsy, whatever the extenders are, and behaves as
  with \<open>networkRequired = false\<close> otherwise.
\<close>

theorem constructor_network_gate:
  assumes nets: "getProp config ''networks'' = JObj nets"
  shows "Environment_constructor config runtimeArgs tasks extenders False
           = forEachExtender extenders
               (constructed config runtimeArgs tasks extenders
                  (readMember nets (network runtimeArgs)))
       \<and> getProp (constructed config runtimeArgs tasks extenders
                     (readMember nets (network runtimeArgs))) ''network''
           = JObj [(''name'', JStr (network runtimeArgs)),
                   (''config'', readMember nets (network runtimeArgs))]
       \<and> (\<not> hasOwnProperty nets (network runtimeArgs)
            \<and> network runtimeArgs \<notin> set inheritedNames \<longrightarrow>
             readMember nets (network runtimeArgs) = JUndefined)
       \<and> ((\<forall>extender\<in>set extenders. \<forall>env. \<exists>env'. extender env = Inr env') \<longrightarrow>
             Environment_constructor config runtimeArgs tasks extenders False
               = Inr (foldl (\<lambda>env extender. projr (extender env))
                        (constructed config runtimeArgs tasks extenders
                           (readMember nets (network runtimeArgs)))
                        extenders))
       \<and> (\<forall>front extender rest e.
             extenders = front @ extender # rest
             \<and> (\<forall>x\<in>set front. \<forall>env. \<exists>env'. x env = Inr env')
             \<and> extender (foldl (\<lambda>env x. projr (x env))
                           (constructed config runtimeArgs tasks extenders
                              (readMember nets (network runtimeArgs)))
                           front) = Inl e
             \<longrightarrow> Environment_constructor config runtimeArgs tasks extenders False = Inl e)
       \<and> (\<forall>e. Environment_constructor config runtimeArgs tasks extenders False = Inl e \<longrightarrow>
               (\<exists>extender\<in>set extenders. \<exists>env. extender env = Inl e))
       \<and> (\<not> truthy (readMember nets (network runtimeArgs)) \<longrightarrow>
             Environment_constructor config runtimeArgs tasks extenders True
               = Inl (TrestleError NETWORK_CONFIG_NOT_FOUND [(''network'', network runtimeArgs)]))
       \<and> (truthy (readMember nets (network runtimeArgs)) \<longrightarrow>
             Environment_constructor config runtimeArgs tasks extenders True
               = Environment_constructor config runtimeArgs tasks extenders False)"
proof -
  let ?env0 = "constructed config runtimeArgs tasks extenders
                 (readMember nets (network runtimeArgs))"
  have c: "Environment_constructor config runtimeArgs tasks extenders False
             = forEachExtender extenders ?env0"
    by (simp add: Environment_constructor_def nets)
  have n: "getProp ?env0 ''network''
           = JObj [(''name'', JStr (network runtimeArgs)),
                   (''config'', readMember nets (network runtimeArgs))]"
    by (simp add: constructed_def getProp_def)
  have t: "Environment_constructor config runtimeArgs tasks extenders True
               = Inl (TrestleError NETWORK_CONFIG_NOT_FOUND [(''network'', network runtimeArgs)])"
    if "\<not> truthy (readMember nets (network runtimeArgs))"
    using that by (simp add: Environment_constructor_def nets)
  have p: "Environment_constructor config runtimeArgs tasks extenders True
               = Environment_constructor config runtimeArgs tasks extenders False"
    if "truthy (readMember nets (network runtimeArgs))"
    using that by (simp add: Environment_constructor_def nets)
  have thrown: "Environment_constructor config runtimeArgs tasks extenders False = Inl e"
    if "extenders = front @ extender # rest
        \<and> (\<forall>x\<in>set front. \<forall>env. \<exists>env'. x env = Inr env')
        \<and> extender (foldl (\<lambda>env x. projr (x env)) ?env0 front) = Inl e"
    for front extender rest e
  proof -
    from that have ok: "\<forall>x\<in>set front. \<forall>env. \<exists>env'. x env = Inr env'"
      and thr: "extender (foldl (\<lambda>env x. projr (x env)) ?env0 front) = Inl e"
      and ext: "extenders = front @ extender # rest"
      by blast+
    have "forEachExtender (front @ extender # rest) ?env0 = Inl e"
      using ok thr
      by (rule forEachExtender_first_throw
            [where front = front and extender = extender and e = e])
    then show ?thesis by (simp only: c ext [symmetric])
  qed
  have all: "Environment_constructor config runtimeArgs tasks extenders False
               = Inr (foldl (\<lambda>env extender. projr (extender env)) ?env0 extenders)"
    if "\<forall>extender\<in>set extenders. \<forall>env. \<exists>env'. extender env = Inr env'"
    using forEachExtender_all_return [OF that] c by simp
  have err: "\<exists>extender\<in>set extenders. \<exists>env. extender env = Inl e"
    if "Environment_constructor config runtimeArgs tasks extenders False = Inl e" for e
    using that c forEachExtender_error by simp
  show ?thesis
  proof (intro conjI allI impI)
    show "Environment_constructor config runtimeArgs tasks extenders False
            = forEachExtender extenders ?env0" by (rule c)
    show "getProp ?env0 ''network''
           = JObj [(''name'', JStr (network runtimeArgs)),
                   (''config'', readMember nets (network runtimeArgs))]" by (rule n)
    show "readMember nets (network runtimeArgs) = JUndefined"
      if "\<not> hasOwnProperty nets (network runtimeArgs)
          \<and> network runtimeArgs \<notin> set inheritedNames"
      using that by (simp add: readMember_absent)
    show "Environment_constructor config runtimeArgs tasks extenders False
               = Inr (foldl (\<lambda>env extender. projr (extender env)) ?env0 extenders)"
      if "\<forall>extender\<in>set extenders. \<forall>env. \<exists>env'. extender env = Inr env'"
      using that by (rule all)
    show "Environment_constructor config runtimeArgs tasks extenders False = Inl e"
      if "extenders = front @ extender # rest
          \<and> (\<forall>x\<in>set front. \<forall>env. \<exists>env'. x env = Inr env')
          \<and> extender (foldl (\<lambda>env x. projr (x env)) ?env0 front) = Inl e"
      for front extender rest e
      using that by (rule thrown)
    show "\<exists>extender\<in>set extenders. \<exists>env. extender env = Inl e"
      if "Environment_constructor config runtimeArgs tasks extenders False = Inl e" for e
      using that by (rule err)
    show "Environment_constructor config runtimeArgs tasks extenders True
               = Inl (TrestleError NETWORK_CONFIG_NOT_FOUND [(''network'', network runtimeArgs)])"
      if "\<not> truthy (readMember nets (network runtimeArgs))"
      using that by (rule t)
    show "Environment_constructor config runtimeArgs tasks extenders True
               = Environment_constructor config runtimeArgs tasks extenders False"
      if "truthy (readMember nets (network runtimeArgs))"
      using that by (rule p)
  qed
qed

theorem constructor_network_gate_witness:
  "getProp testnetConfig ''networks''
     = JObj [(''testnet'', JObj [(''endpoint'', JStr ''http://localhost:26657'')])]
   \<and> \<not> hasOwnProperty [(''testnet'', JObj [(''endpoint'', JStr ''http://localhost:26657'')])]
         (network mainnetArgs)
   \<and> network mainnetArgs \<notin> set inheritedNames
   \<and> readMember [(''testnet'', JObj [(''endpoint'', JStr ''http://localhost:26657'')])]
        (network mainnetArgs) = JUndefined
   \<and> Environment_constructor testnetConfig mainnetArgs []
        [recordingExtender ''first'', recordingExtender ''second''] True
       = Inl (TrestleError NETWORK_CONFIG_NOT_FOUND [(''network'', ''mainnet'')])
   \<and> Environment_constructor testnetConfig mainnetArgs []
        [recordingExtender ''first'', recordingExtender ''second''] False
       = forEachExtender [recordingExtender ''first'', recordingExtender ''second'']
           (constructed testnetConfig mainnetArgs []
              [recordingExtender ''first'', recordingExtender ''second''] JUndefined)
   \<and> getProp (projr (Environment_constructor testnetConfig mainnetArgs []
                        [recordingExtender ''first'', recordingExtender ''second''] False))
        ''network''
       = JObj [(''name'', JStr ''mainnet''), (''config'', JUndefined)]
   \<and> getProp (projr (Environment_constructor testnetConfig mainnetArgs []
                        [recordingExtender ''first'', recordingExtender ''second''] False))
        ''order''
       = JArr [JStr ''first'', JStr ''second'']
   \<and> Environment_constructor testnetConfig mainnetArgs []
        [recordingExtender ''first'', throwingExtender, recordingExtender ''third''] False
       = Inl (Thrown (JStr ''extender failed''))"
proof -
  let ?nets = "[(''testnet'', JObj [(''endpoint'', JStr ''http://localhost:26657'')])]"
  let ?exts = "[recordingExtender ''first'', recordingExtender ''second'']"
  let ?exts3 = "[recordingExtender ''first'', throwingExtender, recordingExtender ''third'']"
  have nets: "getProp testnetConfig ''networks'' = JObj ?nets"
    by (simp add: testnetConfig_def getProp_def)
  have missing: "\<not> hasOwnProperty ?nets (network mainnetArgs)"
    by (simp add: hasOwnProperty_def mainnetArgs_def)
  have plain: "network mainnetArgs \<notin> set inheritedNames"
    by (simp add: mainnetArgs_def inheritedNames_def Object_keys_def Object_prototype_def)
  note th = constructor_network_gate [OF nets, where runtimeArgs = mainnetArgs and tasks = "[]"]
  from th [where extenders = ?exts, THEN conjunct2, THEN conjunct2, THEN conjunct1] missing plain
  have undef: "readMember ?nets (network mainnetArgs) = JUndefined" by simp
  from th [where extenders = ?exts, THEN conjunct1] undef
  have a: "Environment_constructor testnetConfig mainnetArgs [] ?exts False
       = forEachExtender ?exts (constructed testnetConfig mainnetArgs [] ?exts JUndefined)"
    by simp
  from th [where extenders = ?exts] undef
  have b: "Environment_constructor testnetConfig mainnetArgs [] ?exts True
       = Inl (TrestleError NETWORK_CONFIG_NOT_FOUND [(''network'', ''mainnet'')])"
    by (simp add: mainnetArgs_def)
  have c: "getProp (projr (Environment_constructor testnetConfig mainnetArgs [] ?exts False))
        ''network'' = JObj [(''name'', JStr ''mainnet''), (''config'', JUndefined)]"
    by (simp add: constructor_eval)
  have d: "getProp (projr (Environment_constructor testnetConfig mainnetArgs [] ?exts False))
        ''order'' = JArr [JStr ''first'', JStr ''second'']"
    by (simp add: constructor_eval)
  have split: "?exts3 = [recordingExtender ''first''] @ throwingExtender # [recordingExtender ''third'']
      \<and> (\<forall>x\<in>set [recordingExtender ''first'']. \<forall>env. \<exists>env'. x env = Inr env')
      \<and> throwingExtender
          (foldl (\<lambda>env x. projr (x env))
             (constructed testnetConfig mainnetArgs [] ?exts3
                (readMember ?nets (network mainnetArgs)))
             [recordingExtender ''first'']) = Inl (Thrown (JStr ''extender failed''))"
    by (simp add: recordingExtender_def throwingExtender_def)
  note thrown = th [where extenders = ?exts3, THEN conjunct2, THEN conjunct2, THEN conjunct2,
                    THEN conjunct2, THEN conjunct1, rule_format, OF split]
  from nets missing plain undef a b c d thrown show ?thesis by blast
qed

text \<open>
  As C10 is worded, construction completes and every extender is invoked whenever
  \<open>networkRequired = false\<close>; it fails when an extender throws: the error leaves the
  constructor and the extenders after it are not invoked.
\<close>

theorem throwing_extender_counterexample:
  "Environment_constructor testnetConfig mainnetArgs []
     [throwingExtender, recordingExtender ''second''] False
     = Inl (Thrown (JStr ''extender failed''))"
  by (simp add: constructor_eval)

text \<open>
  A network name that is the name of a member every object inherits passes the check of
  \<open>networkRequired = true\<close> although \<open>networks\<close> has no entry of it: the value read is the
  inherited member.
\<close>

lemma inherited_member_read_as_network:
  "\<not> hasOwnProperty (propertiesOf (getProp testnetConfig ''networks'')) ''toString''
   \<and> getProp (projr (Environment_constructor testnetConfig
                        \<lparr>network = ''toString'', otherArgs = []\<rparr> [] [] True)) ''network''
       = JObj [(''name'', JStr ''toString''), (''config'', JOpaque ''toString'')]"
  by (simp add: constructor_eval)

subsection \<open>Project paths\<close>

lemma map_of_foldl_update:
  "distinct (map fst entries) \<Longrightarrow>
   map_of (foldl (\<lambda>obj (key, v). AList.update key v obj) init entries) k
     = (case map_of entries k of Some v \<Rightarrow> Some v | None \<Rightarrow> map_of init k)"
proof (induction entries arbitrary: init)
  case Nil
  then show ?case by simp
next
  case (Cons x entries)
  obtain k' v' where x: "x = (k', v')" by (cases x)
  from Cons.prems have d: "distinct (map fst entries)" and nk: "k' \<notin> fst ` set entries"
    by (auto simp: x)
  from nk have none: "map_of entries k' = None" by (simp add: map_of_eq_None_iff)
  show ?case using Cons.IH [OF d, of "AList.update k' v' init"] none
    by (auto simp: x update_conv' split: option.splits)
qed

lemma keys_foldl_update:
  "fst ` set (foldl (\<lambda>obj (key, v). AList.update key v obj) init entries)
     = fst ` set init \<union> fst ` set entries"
proof (induction entries arbitrary: init)
  case Nil
  then show ?case by simp
next
  case (Cons x entries)
  obtain k' v' where x: "x = (k', v')" by (cases x)
  show ?case by (auto simp: x Cons.IH dom_update)
qed

lemma map_of_otherPaths:
  assumes "distinct (map fst userPaths)"
  shows "map_of (fromEntries (map (\<lambda>(name, v). (name, resolvePathFrom root v None)) userPaths)) k
           = map_option (resolvedAgainst root) (map_of userPaths k)"
proof -
  let ?entries = "map (\<lambda>(name, v). (name, resolvedAgainst root v)) userPaths"
  have f: "(\<lambda>(name, v). (name, resolvePathFrom root v None)) = (\<lambda>(name, v). (name, resolvedAgainst root v))"
    by (simp add: resolvePathFrom_def resolvedAgainst_def fun_eq_iff)
  have d: "distinct (map fst ?entries)"
    using assms by (simp add: comp_def case_prod_beta)
  have "map_of (fromEntries ?entries) k
          = (case map_of ?entries k of Some v \<Rightarrow> Some v | None \<Rightarrow> map_of [] k)"
    unfolding fromEntries_def by (rule map_of_foldl_update [OF d])
  also have "\<dots> = map_option (resolvedAgainst root) (map_of userPaths k)"
    by (simp add: map_of_map split: option.splits)
  finally show ?thesis by (simp only: f)
qed

lemma path_dirname_not_empty: "path_dirname p \<noteq> []"
  by (simp add: path_dirname_def Let_def split: list.splits)

lemma resolvedAgainst_empty: "base \<noteq> [] \<Longrightarrow> resolvedAgainst base [] = path_normalize base"
  by (simp add: resolvedAgainst_def path_isAbsolute_def path_join_def)

lemma resolvePathFrom_resolvedAgainst:
  "resolvePathFrom base dflt given
     = resolvedAgainst base (case given of None \<Rightarrow> dflt | Some p \<Rightarrow> p)"
  by (simp add: resolvePathFrom_def resolvedAgainst_def)

lemmas path_eval =
  resolvedAgainst_def path_isAbsolute_def path_join_def path_normalize_def path_dirname_def
  resolveProjectPaths_def resolvePathFrom_def fromEntries_def Let_def

text \<open>
  C4. For every config-file path and every user paths object, \<open>root\<close> is the declared
  root when that is absolute, and the config file's directory joined with the declared
  root otherwise (with no declared root, the config file's directory, normalised);
  \<open>sources\<close>, \<open>cache\<close>,
  \<open>artifacts\<close> and \<open>tests\<close> (defaults \<open>contracts\<close>, \<open>cache\<close>, \<open>artifacts\<close>, \<open>test\<close>)
  and every other user-declared path are taken as they are when absolute and joined to
  \<open>root\<close> otherwise; \<open>configFile\<close> is the input path whatever the user declares; the
  result has the user's names and these six, and no others.
\<close>

theorem project_paths_resolved_from_root:
  assumes wf: "distinct (map fst userPaths)"
  shows "map_of (resolveProjectPaths userConfigPath (Some userPaths)) ''root''
           = Some (resolvedAgainst (path_dirname userConfigPath)
                     (case map_of userPaths ''root'' of None \<Rightarrow> [] | Some p \<Rightarrow> p))
       \<and> map_of (resolveProjectPaths userConfigPath (Some userPaths)) ''configFile''
           = Some userConfigPath
       \<and> map_of (resolveProjectPaths userConfigPath (Some userPaths)) ''sources''
           = Some (resolvedAgainst
                     (the (map_of (resolveProjectPaths userConfigPath (Some userPaths)) ''root''))
                     (case map_of userPaths ''sources'' of None \<Rightarrow> ''contracts'' | Some p \<Rightarrow> p))
       \<and> map_of (resolveProjectPaths userConfigPath (Some userPaths)) ''cache''
           = Some (resolvedAgainst
                     (the (map_of (resolveProjectPaths userConfigPath (Some userPaths)) ''root''))
                     (case map_of userPaths ''cache'' of None \<Rightarrow> ''cache'' | Some p \<Rightarrow> p))
       \<and> map_of (resolveProjectPaths userConfigPath (Some userPaths)) ''artifacts''
           = Some (resolvedAgainst
                     (the (map_of (resolveProjectPaths userConfigPath (Some userPaths)) ''root''))
                     (case map_of userPaths ''artifacts'' of None \<Rightarrow> ''artifacts'' | Some p \<Rightarrow> p))
       \<and> map_of (resolveProjectPaths userConfigPath (Some userPaths)) ''tests''
           = Some (resolvedAgainst
                     (the (map_of (resolveProjectPaths userConfigPath (Some userPaths)) ''root''))
                     (case map_of userPaths ''tests'' of None \<Rightarrow> ''test'' | Some p \<Rightarrow> p))
       \<and> (\<forall>name p. name \<notin> set fixedPathNames \<and> map_of userPaths name = Some p \<longrightarrow>
             map_of (resolveProjectPaths userConfigPath (Some userPaths)) name
               = Some (resolvedAgainst
                         (the (map_of (resolveProjectPaths userConfigPath (Some userPaths)) ''root''))
                         p))
       \<and> fst ` set (resolveProjectPaths userConfigPath (Some userPaths))
           = fst ` set userPaths \<union> set fixedPathNames
       \<and> resolveProjectPaths userConfigPath None = resolveProjectPaths userConfigPath (Some [])
       \<and> (map_of userPaths ''root'' = None \<longrightarrow>
             map_of (resolveProjectPaths userConfigPath (Some userPaths)) ''root''
               = Some (path_normalize (path_dirname userConfigPath)))"
proof -
  let ?root = "resolvedAgainst (path_dirname userConfigPath)
                     (case map_of userPaths ''root'' of None \<Rightarrow> [] | Some p \<Rightarrow> p)"
  let ?fixed = "[(''root'', ?root),
            (''configFile'', userConfigPath),
            (''sources'', resolvePathFrom ?root ''contracts'' (map_of userPaths ''sources'')),
            (''cache'', resolvePathFrom ?root ''cache'' (map_of userPaths ''cache'')),
            (''artifacts'', resolvePathFrom ?root ''artifacts'' (map_of userPaths ''artifacts'')),
            (''tests'', resolvePathFrom ?root ''test'' (map_of userPaths ''tests''))]"
  let ?other = "fromEntries (map (\<lambda>(name, v). (name, resolvePathFrom ?root v None)) userPaths)"
  have r: "resolveProjectPaths userConfigPath (Some userPaths)
             = foldl (\<lambda>obj (key, v). AList.update key v obj) ?other ?fixed"
    by (simp add: resolveProjectPaths_def Let_def resolvePathFrom_resolvedAgainst)
  have d: "distinct (map fst ?fixed)" by simp
  have look: "map_of (resolveProjectPaths userConfigPath (Some userPaths)) k
      = (case map_of ?fixed k of Some v \<Rightarrow> Some v | None \<Rightarrow> map_of ?other k)" for k
    unfolding r by (rule map_of_foldl_update [OF d])
  have root: "map_of (resolveProjectPaths userConfigPath (Some userPaths)) ''root'' = Some ?root"
    by (simp add: look)
  have extra: "map_of (resolveProjectPaths userConfigPath (Some userPaths)) name
               = Some (resolvedAgainst ?root p)"
    if "name \<notin> set fixedPathNames \<and> map_of userPaths name = Some p" for name p
    using that by (simp add: look fixedPathNames_def map_of_otherPaths [OF wf])
  have keys: "fst ` set (resolveProjectPaths userConfigPath (Some userPaths))
           = fst ` set userPaths \<union> set fixedPathNames"
  proof -
    have o: "fst ` set ?other = fst ` set userPaths"
      unfolding fromEntries_def by (force simp: keys_foldl_update)
    have "fst ` set (foldl (\<lambda>obj (key, v). AList.update key v obj) ?other ?fixed)
            = fst ` set ?other \<union> fst ` set ?fixed"
      by (rule keys_foldl_update)
    also have "fst ` set ?fixed = set fixedPathNames"
      by (simp add: fixedPathNames_def)
    finally show ?thesis by (simp only: r o)
  qed
  have none: "resolveProjectPaths userConfigPath None = resolveProjectPaths userConfigPath (Some [])"
    by (simp add: resolveProjectPaths_def)
  have dflt: "map_of (resolveProjectPaths userConfigPath (Some userPaths)) ''root''
               = Some (path_normalize (path_dirname userConfigPath))"
    if "map_of userPaths ''root'' = None"
    using that by (simp add: root resolvedAgainst_empty path_dirname_not_empty)
  show ?thesis
    using extra keys none dflt
    by (simp add: root) (simp add: look resolvePathFrom_resolvedAgainst)
qed

theorem project_paths_resolved_from_root_witness:
  "distinct (map fst [(''root'', ''sub''), (''deployments'', ''out/deploy''),
                      (''keys'', ''/etc/keys''), (''configFile'', ''elsewhere.js'')])
   \<and> map_of (resolveProjectPaths ''/proj/cfg.js''
               (Some [(''root'', ''sub''), (''deployments'', ''out/deploy''),
                      (''keys'', ''/etc/keys''), (''configFile'', ''elsewhere.js'')])) ''root''
       = Some ''/proj/sub''
   \<and> map_of (resolveProjectPaths ''/proj/cfg.js''
               (Some [(''root'', ''sub''), (''deployments'', ''out/deploy''),
                      (''keys'', ''/etc/keys''), (''configFile'', ''elsewhere.js'')])) ''configFile''
       = Some ''/proj/cfg.js''
   \<and> map_of (resolveProjectPaths ''/proj/cfg.js''
               (Some [(''root'', ''sub''), (''deployments'', ''out/deploy''),
                      (''keys'', ''/etc/keys''), (''configFile'', ''elsewhere.js'')])) ''sources''
       = Some ''/proj/sub/contracts''
   \<and> map_of (resolveProjectPaths ''/proj/cfg.js''
               (Some [(''root'', ''sub''), (''deployments'', ''out/deploy''),
                      (''keys'', ''/etc/keys''), (''configFile'', ''elsewhere.js'')])) ''deployments''
       = Some ''/proj/sub/out/deploy''
   \<and> map_of (resolveProjectPaths ''/proj/cfg.js''
               (Some [(''root'', ''sub''), (''deployments'', ''out/deploy''),
                      (''keys'', ''/etc/keys''), (''configFile'', ''elsewhere.js'')])) ''keys''
       = Some ''/etc/keys''
   \<and> resolveProjectPaths ''/proj/cfg.js'' None
       = [(''root'', ''/proj''), (''configFile'', ''/proj/cfg.js''),
          (''sources'', ''/proj/contracts''), (''cache'', ''/proj/cache''),
          (''artifacts'', ''/proj/artifacts''), (''tests'', ''/proj/test'')]"
proof -
  let ?up = "[(''root'', ''sub''), (''deployments'', ''out/deploy''),
              (''keys'', ''/etc/keys''), (''configFile'', ''elsewhere.js'')]"
  have wf: "distinct (map fst ?up)" by simp
  note th = project_paths_resolved_from_root [OF wf, of "''/proj/cfg.js''"]
  from th [THEN conjunct1]
  have root: "map_of (resolveProjectPaths ''/proj/cfg.js'' (Some ?up)) ''root'' = Some ''/proj/sub''"
    by (simp add: path_eval)
  from th [THEN conjunct2, THEN conjunct1]
  have cf: "map_of (resolveProjectPaths ''/proj/cfg.js'' (Some ?up)) ''configFile''
              = Some ''/proj/cfg.js''" .
  from th [THEN conjunct2, THEN conjunct2, THEN conjunct1]
  have src: "map_of (resolveProjectPaths ''/proj/cfg.js'' (Some ?up)) ''sources''
              = Some ''/proj/sub/contracts''"
    by (simp add: root) (simp add: path_eval)
  note extra = th [THEN conjunct2, THEN conjunct2, THEN conjunct2, THEN conjunct2,
                   THEN conjunct2, THEN conjunct2, THEN conjunct1, rule_format]
  have "''deployments'' \<notin> set fixedPathNames \<and> map_of ?up ''deployments'' = Some ''out/deploy''"
    by (simp add: fixedPathNames_def)
  from extra [OF this]
  have dep: "map_of (resolveProjectPaths ''/proj/cfg.js'' (Some ?up)) ''deployments''
              = Some ''/proj/sub/out/deploy''"
    by (simp add: root) (simp add: path_eval)
  have "''keys'' \<notin> set fixedPathNames \<and> map_of ?up ''keys'' = Some ''/etc/keys''"
    by (simp add: fixedPathNames_def)
  from extra [OF this]
  have keys: "map_of (resolveProjectPaths ''/proj/cfg.js'' (Some ?up)) ''keys'' = Some ''/etc/keys''"
    by (simp add: root) (simp add: path_eval)
  have dflt: "resolveProjectPaths ''/proj/cfg.js'' None
       = [(''root'', ''/proj''), (''configFile'', ''/proj/cfg.js''),
          (''sources'', ''/proj/contracts''), (''cache'', ''/proj/cache''),
          (''artifacts'', ''/proj/artifacts''), (''tests'', ''/proj/test'')]"
    by (simp add: path_eval)
  from wf root cf src dep keys dflt show ?thesis by blast
qed

subsection \<open>The deep merge\<close>

lemma mergeObject_get:
  "distinct (map fst s) \<Longrightarrow>
   getProp (mergeObject am t dest s) k
     = (if hasOwnProperty s k then mergedValue am t k (getProp s k) else getProp dest k)"
proof (induction s arbitrary: dest)
  case Nil
  then show ?case by (simp add: hasOwnProperty_Nil)
next
  case (Cons x s)
  obtain k' v' where x: "x = (k', v')" by (cases x)
  from Cons.prems have d: "distinct (map fst s)" and nk: "k' \<notin> fst ` set s"
    by (auto simp: x)
  from nk have nh: "\<not> hasOwnProperty s k'" by (simp add: hasOwnProperty_def)
  show ?case
    using Cons.IH [OF d] nh
    by (auto simp: x getProp_Cons hasOwnProperty_Cons getProp_setProp mergedValue_def)
qed

lemma mergeObject_has:
  "hasOwnProperty (mergeObject am t dest s) k = (hasOwnProperty dest k \<or> hasOwnProperty s k)"
proof (induction s arbitrary: dest)
  case Nil
  then show ?case by (simp add: hasOwnProperty_Nil)
next
  case (Cons x s)
  obtain k' v' where x: "x = (k', v')" by (cases x)
  show ?case
    by (auto simp: x Cons.IH hasOwnProperty_Cons hasOwnProperty_setProp)
qed

lemma mergeUserAndDefaultConfigs_JObj:
  "mergeUserAndDefaultConfigs d u = JObj (mergeObject arrayMerge d d u)"
  by (simp add: mergeUserAndDefaultConfigs_def)

lemma deepmerge_array_source: "deepmerge arrayMerge target (JArr xs) = JArr xs"
  by (cases target) (simp_all add: arrayMerge_def)

lemma deepmerge_isObject: "isObject (deepmerge merge target (JObj s))"
  by (cases target) simp_all


lemmas merge_eval =
  mergeUserAndDefaultConfigs_def arrayMerge_def getProp_def setProp_def hasOwnProperty_def

text \<open>
  C5. The merge of a default and a user configuration is an object with the keys of both.
  A key the user configuration lacks keeps the default's value; a scalar of the user
  configuration wins; an array of the user configuration replaces whatever the default has
  under the key, whole; an object of the user configuration is merged with the default's
  value by the same merge, recursively. Merging the default \<open>{a: 1, list: [1, 2]}\<close> with
  the user's \<open>{list: [3]}\<close> gives \<open>{a: 1, list: [3]}\<close>.
\<close>

theorem merge_recursive_arrays_replaced:
  assumes wf: "distinct (map fst userConfig)"
  shows "mergeUserAndDefaultConfigs defaultConfig userConfig
           = JObj (propertiesOf (mergeUserAndDefaultConfigs defaultConfig userConfig))
       \<and> (\<forall>key. hasOwnProperty (propertiesOf (mergeUserAndDefaultConfigs defaultConfig userConfig)) key
               = (hasOwnProperty defaultConfig key \<or> hasOwnProperty userConfig key))
       \<and> (\<forall>key. \<not> hasOwnProperty userConfig key \<longrightarrow>
             getProp (propertiesOf (mergeUserAndDefaultConfigs defaultConfig userConfig)) key
               = getProp defaultConfig key)
       \<and> (\<forall>key. hasOwnProperty userConfig key \<and> \<not> isMergeableObject (getProp userConfig key) \<longrightarrow>
             getProp (propertiesOf (mergeUserAndDefaultConfigs defaultConfig userConfig)) key
               = getProp userConfig key)
       \<and> (\<forall>key xs. hasOwnProperty userConfig key \<and> getProp userConfig key = JArr xs \<longrightarrow>
             getProp (propertiesOf (mergeUserAndDefaultConfigs defaultConfig userConfig)) key
               = JArr xs)
       \<and> (\<forall>key s. hasOwnProperty userConfig key \<and> getProp userConfig key = JObj s \<longrightarrow>
             getProp (propertiesOf (mergeUserAndDefaultConfigs defaultConfig userConfig)) key
               = (if hasOwnProperty defaultConfig key
                  then deepmerge arrayMerge (getProp defaultConfig key) (JObj s)
                  else JObj s))
       \<and> (\<forall>t s. deepmerge arrayMerge (JObj t) (JObj s) = mergeUserAndDefaultConfigs t s)
       \<and> (\<forall>target xs. deepmerge arrayMerge target (JArr xs) = JArr xs)"
proof -
  let ?m = "propertiesOf (mergeUserAndDefaultConfigs defaultConfig userConfig)"
  have m: "?m = mergeObject arrayMerge defaultConfig defaultConfig userConfig"
    by (simp add: mergeUserAndDefaultConfigs_JObj)
  have get: "getProp ?m key
     = (if hasOwnProperty userConfig key
        then mergedValue arrayMerge defaultConfig key (getProp userConfig key)
        else getProp defaultConfig key)" for key
    by (simp only: m mergeObject_get [OF wf])
  have has: "hasOwnProperty ?m key
      = (hasOwnProperty defaultConfig key \<or> hasOwnProperty userConfig key)" for key
    by (simp only: m mergeObject_has)
  show ?thesis
  proof (intro conjI allI impI)
    show "mergeUserAndDefaultConfigs defaultConfig userConfig = JObj ?m"
      by (simp add: mergeUserAndDefaultConfigs_JObj)
    show "hasOwnProperty ?m key = (hasOwnProperty defaultConfig key \<or> hasOwnProperty userConfig key)"
      for key by (rule has)
    show "getProp ?m key = getProp defaultConfig key" if "\<not> hasOwnProperty userConfig key" for key
      using that by (simp add: get)
    show "getProp ?m key = getProp userConfig key"
      if "hasOwnProperty userConfig key \<and> \<not> isMergeableObject (getProp userConfig key)" for key
      using that by (simp add: get mergedValue_def)
    show "getProp ?m key = JArr xs"
      if "hasOwnProperty userConfig key \<and> getProp userConfig key = JArr xs" for key xs
      using that by (simp add: get mergedValue_def deepmerge_array_source del: deepmerge.simps)
    show "getProp ?m key = (if hasOwnProperty defaultConfig key
                  then deepmerge arrayMerge (getProp defaultConfig key) (JObj s)
                  else JObj s)"
      if "hasOwnProperty userConfig key \<and> getProp userConfig key = JObj s" for key s
      using that by (simp add: get mergedValue_def)
    show "deepmerge arrayMerge (JObj t) (JObj s) = mergeUserAndDefaultConfigs t s" for t s
      by (simp add: mergeUserAndDefaultConfigs_def)
    show "deepmerge arrayMerge target (JArr xs) = JArr xs" for target xs
      by (rule deepmerge_array_source)
  qed
qed

theorem merge_recursive_arrays_replaced_witness:
  "distinct (map fst [(''list'', JArr [JNum 3])])
   \<and> mergeUserAndDefaultConfigs [(''a'', JNum 1), (''list'', JArr [JNum 1, JNum 2])]
        [(''list'', JArr [JNum 3])]
       = JObj [(''a'', JNum 1), (''list'', JArr [JNum 3])]
   \<and> mergeUserAndDefaultConfigs
        [(''a'', JNum 1),
         (''compiler'', JObj [(''version'', JStr ''1.0''), (''plugins'', JArr [JStr ''p'', JStr ''q''])])]
        [(''compiler'', JObj [(''plugins'', JArr []), (''optimize'', JBool True)]),
         (''a'', JStr ''one'')]
       = JObj [(''a'', JStr ''one''),
               (''compiler'', JObj [(''version'', JStr ''1.0''), (''plugins'', JArr []),
                                    (''optimize'', JBool True)])]"
proof -
  let ?d = "[(''a'', JNum 1), (''list'', JArr [JNum 1, JNum 2])]"
  let ?u = "[(''list'', JArr [JNum 3])]"
  have wf: "distinct (map fst ?u)" by simp
  note th = merge_recursive_arrays_replaced [OF wf, of ?d]
  have m: "propertiesOf (mergeUserAndDefaultConfigs ?d ?u) = [(''a'', JNum 1), (''list'', JArr [JNum 3])]"
    by (simp add: merge_eval)
  from th [THEN conjunct1] m
  have a: "mergeUserAndDefaultConfigs ?d ?u = JObj [(''a'', JNum 1), (''list'', JArr [JNum 3])]"
    by simp
  have b: "mergeUserAndDefaultConfigs
        [(''a'', JNum 1),
         (''compiler'', JObj [(''version'', JStr ''1.0''), (''plugins'', JArr [JStr ''p'', JStr ''q''])])]
        [(''compiler'', JObj [(''plugins'', JArr []), (''optimize'', JBool True)]),
         (''a'', JStr ''one'')]
       = JObj [(''a'', JStr ''one''),
               (''compiler'', JObj [(''version'', JStr ''1.0''), (''plugins'', JArr []),
                                    (''optimize'', JBool True)])]"
    by (simp add: merge_eval)
  from wf a b show ?thesis by blast
qed

subsection \<open>resolveConfig\<close>

lemma resolvedLiteral_networks:
  "hasOwnProperty (resolvedLiteral config paths) ''networks''"
  "getProp (resolvedLiteral config paths) ''networks''
     = (if nullish (getProp (propertiesOf config) ''networks'') then JObj []
        else getProp (propertiesOf config) ''networks'')"
  by (simp_all add: resolvedLiteral_def Let_def hasOwnProperty_setProp getProp_setProp)

lemma objectOrUndefined_cases:
  "objectOrUndefined v \<Longrightarrow> (\<exists>ps. v = JObj ps) \<or> v = JUndefined"
  by (cases v) (simp_all add: objectOrUndefined_def)

lemma merged_networks_object:
  assumes wf: "distinct (map fst u)"
    and d: "objectOrUndefined (getProp d k)" and u: "objectOrUndefined (getProp u k)"
  shows "objectOrUndefined (getProp (mergeObject arrayMerge d d u) k)"
proof (cases "hasOwnProperty u k")
  case False
  then show ?thesis using d by (simp add: mergeObject_get [OF wf])
next
  case True
  from objectOrUndefined_cases [OF u] show ?thesis
  proof
    assume "\<exists>ps. getProp u k = JObj ps"
    then obtain ps where ps: "getProp u k = JObj ps" ..
    have "isObject (mergedValue arrayMerge d k (JObj ps))"
      unfolding mergedValue_def using deepmerge_isObject [of arrayMerge "getProp d k" ps]
      by (simp del: deepmerge.simps)
    then show ?thesis using True ps
      by (simp add: mergeObject_get [OF wf] objectOrUndefined_def)
  next
    assume "getProp u k = JUndefined"
    then show ?thesis using True
      by (simp add: mergeObject_get [OF wf] mergedValue_def objectOrUndefined_def)
  qed
qed

lemma networksGuarantee_literal:
  assumes wf: "distinct (map fst userConfig)"
  shows "networksGuarantee defaultConfig userConfig
           (resolvedLiteral (mergeUserAndDefaultConfigs defaultConfig userConfig) paths)"
proof -
  let ?m = "mergeObject arrayMerge defaultConfig defaultConfig userConfig"
  let ?n = "getProp ?m ''networks''"
  have lit: "getProp (resolvedLiteral (mergeUserAndDefaultConfigs defaultConfig userConfig) paths)
               ''networks'' = (if nullish ?n then JObj [] else ?n)"
    by (simp add: resolvedLiteral_networks mergeUserAndDefaultConfigs_JObj)
  have nn: "\<not> nullish (if nullish ?n then JObj [] else ?n)" by simp
  have empty: "(if nullish ?n then JObj [] else ?n) = JObj []"
    if "\<not> hasOwnProperty defaultConfig ''networks'' \<and> \<not> hasOwnProperty userConfig ''networks''"
    using that by (simp add: mergeObject_get [OF wf] getProp_absent)
  have obj: "isObject (if nullish ?n then JObj [] else ?n)"
    if "objectOrUndefined (getProp defaultConfig ''networks'')
        \<and> objectOrUndefined (getProp userConfig ''networks'')"
  proof -
    from that merged_networks_object [OF wf, of defaultConfig "''networks''"]
    have "objectOrUndefined ?n" by simp
    from objectOrUndefined_cases [OF this] show ?thesis by auto
  qed
  show ?thesis
    unfolding networksGuarantee_def
    using nn empty obj by (simp only: lit resolvedLiteral_networks(1)) simp
qed

lemma applyConfigExtenders_keep:
  assumes "\<forall>extender\<in>set extenders. \<forall>r uc r'. extender r uc = Inr r' \<longrightarrow>
             hasOwnProperty r' ''networks'' = hasOwnProperty r ''networks''
             \<and> getProp r' ''networks'' = getProp r ''networks''"
    and "applyConfigExtenders extenders userConfig r0 = Inr resolved"
  shows "hasOwnProperty resolved ''networks'' = hasOwnProperty r0 ''networks''
         \<and> getProp resolved ''networks'' = getProp r0 ''networks''"
  using assms
proof (induction extenders arbitrary: r0)
  case Nil
  then show ?case by simp
next
  case (Cons extender rest)
  from Cons.prems(2) obtain r1 where r1: "extender r0 userConfig = Inr r1"
    and rest: "applyConfigExtenders rest userConfig r1 = Inr resolved"
    by (cases "extender r0 userConfig") auto
  from Cons.prems(1) r1 have step: "hasOwnProperty r1 ''networks'' = hasOwnProperty r0 ''networks''
             \<and> getProp r1 ''networks'' = getProp r0 ''networks''" by simp
  from Cons.prems(1) have "\<forall>extender\<in>set rest. \<forall>r uc r'. extender r uc = Inr r' \<longrightarrow>
             hasOwnProperty r' ''networks'' = hasOwnProperty r ''networks''
             \<and> getProp r' ''networks'' = getProp r ''networks''" by simp
  from Cons.IH [OF this rest] step show ?case by simp
qed

lemma resolveConfig_Inr:
  "resolveConfig userConfigPath defaultConfig userConfig configExtenders = Inr resolved \<Longrightarrow>
   \<exists>paths. applyConfigExtenders configExtenders userConfig
             (resolvedLiteral (mergeUserAndDefaultConfigs defaultConfig userConfig) paths)
           = Inr resolved"
  by (auto simp: resolveConfig_def Let_def split: option.splits sum.splits)

lemmas config_eval =
  resolveConfig_def resolvedLiteral_def userPathsOf_def pathsValue_def objectSpread_def
  merge_eval path_eval verboseExtender_def localnetExtender_def Let_def

text \<open>
  C9 (as amended). For every default configuration, user configuration and paths value,
  the object \<open>resolveConfig\<close> builds before it applies the extenders has a \<open>networks\<close>
  field that is neither \<open>undefined\<close> nor \<open>null\<close>, equal to the empty object when neither
  input has the field, and an object when each input's \<open>networks\<close> is an object or
  \<open>undefined\<close>. The configuration \<open>resolveConfig\<close> returns is that object after the
  extenders, and has the same guarantee when every extender leaves \<open>networks\<close> as it
  found it (in particular when there is no extender).
\<close>

theorem resolved_config_has_networks:
  assumes wf: "distinct (map fst userConfig)"
  shows "networksGuarantee defaultConfig userConfig
           (resolvedLiteral (mergeUserAndDefaultConfigs defaultConfig userConfig) paths)
       \<and> resolveConfig None defaultConfig userConfig configExtenders
           = applyConfigExtenders configExtenders userConfig
               (resolvedLiteral (mergeUserAndDefaultConfigs defaultConfig userConfig) JUndefined)
       \<and> (\<forall>resolved.
             resolveConfig userConfigPath defaultConfig userConfig configExtenders = Inr resolved
             \<and> (\<forall>extender\<in>set configExtenders. \<forall>r uc r'. extender r uc = Inr r' \<longrightarrow>
                   hasOwnProperty r' ''networks'' = hasOwnProperty r ''networks''
                   \<and> getProp r' ''networks'' = getProp r ''networks'')
             \<longrightarrow> networksGuarantee defaultConfig userConfig resolved)"
proof (intro conjI allI impI)
  show "networksGuarantee defaultConfig userConfig
           (resolvedLiteral (mergeUserAndDefaultConfigs defaultConfig userConfig) paths)"
    by (rule networksGuarantee_literal [OF wf])
  show "resolveConfig None defaultConfig userConfig configExtenders
           = applyConfigExtenders configExtenders userConfig
               (resolvedLiteral (mergeUserAndDefaultConfigs defaultConfig userConfig) JUndefined)"
    by (simp add: resolveConfig_def)
  fix resolved
  assume h: "resolveConfig userConfigPath defaultConfig userConfig configExtenders = Inr resolved
             \<and> (\<forall>extender\<in>set configExtenders. \<forall>r uc r'. extender r uc = Inr r' \<longrightarrow>
                   hasOwnProperty r' ''networks'' = hasOwnProperty r ''networks''
                   \<and> getProp r' ''networks'' = getProp r ''networks'')"
  then obtain paths0 where a: "applyConfigExtenders configExtenders userConfig
             (resolvedLiteral (mergeUserAndDefaultConfigs defaultConfig userConfig) paths0)
           = Inr resolved"
    using resolveConfig_Inr by blast
  from h have keep: "\<forall>extender\<in>set configExtenders. \<forall>r uc r'. extender r uc = Inr r' \<longrightarrow>
                   hasOwnProperty r' ''networks'' = hasOwnProperty r ''networks''
                   \<and> getProp r' ''networks'' = getProp r ''networks''" by blast
  from applyConfigExtenders_keep [OF keep a] networksGuarantee_literal [OF wf, of defaultConfig paths0]
  show "networksGuarantee defaultConfig userConfig resolved"
    by (simp add: networksGuarantee_def)
qed

theorem resolved_config_has_networks_witness:
  "distinct (map fst [(''paths'', JObj [(''root'', JStr ''sub'')])])
   \<and> resolveConfig (Some ''/proj/cfg.js'') [(''a'', JNum 1)]
        [(''paths'', JObj [(''root'', JStr ''sub'')])] [verboseExtender]
       = Inr [(''a'', JNum 1),
              (''paths'', JObj [(''root'', JStr ''/proj/sub''),
                               (''configFile'', JStr ''/proj/cfg.js''),
                               (''sources'', JStr ''/proj/sub/contracts''),
                               (''cache'', JStr ''/proj/sub/cache''),
                               (''artifacts'', JStr ''/proj/sub/artifacts''),
                               (''tests'', JStr ''/proj/sub/test'')]),
              (''networks'', JObj []),
              (''verbose'', JBool True)]
   \<and> networksGuarantee [(''a'', JNum 1)] [(''paths'', JObj [(''root'', JStr ''sub'')])]
        (projr (resolveConfig (Some ''/proj/cfg.js'') [(''a'', JNum 1)]
                  [(''paths'', JObj [(''root'', JStr ''sub'')])] [verboseExtender]))
   \<and> getProp (projr (resolveConfig (Some ''/proj/cfg.js'') [(''a'', JNum 1)]
                       [(''paths'', JObj [(''root'', JStr ''sub'')])] [verboseExtender]))
        ''networks'' = JObj []"
proof -
  let ?d = "[(''a'', JNum 1)]"
  let ?u = "[(''paths'', JObj [(''root'', JStr ''sub'')])]"
  let ?r = "[(''a'', JNum 1),
              (''paths'', JObj [(''root'', JStr ''/proj/sub''),
                               (''configFile'', JStr ''/proj/cfg.js''),
                               (''sources'', JStr ''/proj/sub/contracts''),
                               (''cache'', JStr ''/proj/sub/cache''),
                               (''artifacts'', JStr ''/proj/sub/artifacts''),
                               (''tests'', JStr ''/proj/sub/test'')]),
              (''networks'', JObj []),
              (''verbose'', JBool True)]"
  have wf: "distinct (map fst ?u)" by simp
  have run: "resolveConfig (Some ''/proj/cfg.js'') ?d ?u [verboseExtender] = Inr ?r"
    by (simp add: config_eval)
  have keep: "\<forall>extender\<in>set [verboseExtender]. \<forall>r uc r'. extender r uc = Inr r' \<longrightarrow>
                   hasOwnProperty r' ''networks'' = hasOwnProperty r ''networks''
                   \<and> getProp r' ''networks'' = getProp r ''networks''"
    by (auto simp: verboseExtender_def hasOwnProperty_setProp getProp_setProp)
  note th = resolved_config_has_networks
    [OF wf, where defaultConfig = ?d and userConfigPath = "Some ''/proj/cfg.js''"
       and configExtenders = "[verboseExtender]",
     THEN conjunct2, THEN conjunct2, rule_format, OF conjI [OF run keep]]
  from th have g: "networksGuarantee ?d ?u ?r" .
  then have e: "getProp ?r ''networks'' = JObj []"
    by (simp add: getProp_def)
  from wf run g e show ?thesis by simp
qed

text \<open>
  As C9 is worded, for every list of config extenders, it fails: an extender that adds a
  default network returns a configuration whose \<open>networks\<close> is not empty although neither
  input declares one.
\<close>

theorem extender_adds_network_counterexample:
  "\<not> hasOwnProperty [] ''networks''
   \<and> resolveConfig None [] [] [localnetExtender]
       = Inr [(''paths'', JUndefined),
              (''networks'', JObj [(''localnet'', JObj [(''endpoint'', JStr ''http://localhost:26657'')])])]
   \<and> getProp (projr (resolveConfig None [] [] [localnetExtender])) ''networks'' \<noteq> JObj []"
  by (simp add: config_eval)

end
